theory Spec2Isabelle
  imports Complex_Main
begin

section \<open>Dates, numbers and strings of the host language\<close>

text \<open>
  The components compute with JavaScript \<^verbatim>\<open>Date\<close> objects. A \<^verbatim>\<open>Date\<close> is the number of
  milliseconds since the epoch (\<^verbatim>\<open>getTime()\<close>), an integer. A calendar-day string
  \<^verbatim>\<open>'YYYY-MM-DD'\<close> (the \<^verbatim>\<open>date\<close>, \<^verbatim>\<open>target_date\<close> and \<^verbatim>\<open>recovery_start_date\<close> columns, and
  what \<^verbatim>\<open>toISOString().split('T')[0]\<close> returns) is modelled by the number of that day,
  counted from 1970-01-01: the strings and the day numbers correspond one to one and
  the string order of the store's \<^verbatim>\<open>gte\<close> and \<^verbatim>\<open>order\<close> is the order of the day numbers.
\<close>

type_synonym timestamp = int
type_synonym date_string = int

definition MS_PER_DAY :: int where
  "MS_PER_DAY = 1000 * 60 * 60 * 24"

text \<open>\<^verbatim>\<open>new Date('YYYY-MM-DD')\<close>: a date-only string is read as midnight UTC of that day.\<close>

definition Date_parse :: "date_string \<Rightarrow> timestamp" where
  "Date_parse d = d * MS_PER_DAY"

text \<open>\<^verbatim>\<open>t.toISOString().split('T')[0]\<close>: the calendar day of the instant in UTC.\<close>

definition toISODate :: "timestamp \<Rightarrow> date_string" where
  "toISODate t = t div MS_PER_DAY"

text \<open>
  \<^verbatim>\<open>t.toDateString()\<close> prints the calendar day of the instant in the local time zone
  (\<^verbatim>\<open>'Mon Jan 15 2024'\<close>); two such strings are equal exactly when the local days are, so
  the string is modelled by the number of the local day. The zone is given by
  \<^verbatim>\<open>getTimezoneOffset()\<close>: minutes to add to local time to reach UTC (300 for UTC-5,
  -60 for UTC+1), taken as constant over the days compared (no daylight-saving change).
\<close>

definition toDateString :: "int \<Rightarrow> timestamp \<Rightarrow> int" where
  "toDateString tzo t = (t - tzo * 60000) div MS_PER_DAY"

text \<open>
  \<^verbatim>\<open>d.setDate(d.getDate() - i)\<close> moves the instant back by \<open>i\<close> local calendar days and
  keeps the local time of day: \<open>i\<close> times 24 hours under a constant offset.
\<close>

definition setDate_back :: "timestamp \<Rightarrow> nat \<Rightarrow> timestamp" where
  "setDate_back t i = t - int i * MS_PER_DAY"

text \<open>
  A number inside a template literal is printed by \<^verbatim>\<open>Number.prototype.toString\<close>: in
  decimal for the integers met here, with a minus sign when negative.
\<close>

definition digit :: "nat \<Rightarrow> char" where
  "digit d = ''0123456789'' ! d"

fun decimal :: "nat \<Rightarrow> string" where
  "decimal n = (if n div 10 = 0 then [digit n] else decimal (n div 10) @ [digit (n mod 10)])"

definition Number_toString :: "int \<Rightarrow> string" where
  "Number_toString x = (if 0 \<le> x then decimal (nat x) else CHR ''-'' # decimal (nat \<bar>x\<bar>))"

text \<open>
  A number is an IEEE 754 double, kept in the model as the rational it denotes. In the
  goal progress, whose value is the rounded result itself, every operation rounds its
  exact result to the nearest double, a tie to the one with an even significand
  (\<open>fl\<close>): 53 significant bits, the unit in the last place being \<open>2 ^ (e - 52)\<close> for a
  value between \<open>2 ^ e\<close> and \<open>2 ^ (e + 1)\<close>. The exponent range is not bounded in the
  model: the time values of a \<^verbatim>\<open>Date\<close> are integers of magnitude at most 8.64e15, and no
  result computed from them in the goal progress leaves the range of the normal doubles.
  Elsewhere a quotient is floored, ceiled or rounded to an integer, or averages a few
  small integers, and the model computes with the exact quotient.
  \<open>bit_length n\<close> is the number of binary digits of \<open>n\<close>.
\<close>

function bit_length :: "int \<Rightarrow> nat" where
  "bit_length n = (if n \<le> 0 then 0 else Suc (bit_length (n div 2)))"
  by pat_completeness auto
termination
  by (relation "measure nat") auto

definition pow2 :: "int \<Rightarrow> rat" where
  "pow2 k = (if 0 \<le> k then 2 ^ nat k else 1 / 2 ^ nat (- k))"

text \<open>The exponent of a positive number: the \<open>e\<close> with \<open>2 ^ e \<le> x < 2 ^ (e + 1)\<close>.\<close>

definition exponent :: "rat \<Rightarrow> int" where
  "exponent x =
     (if 1 \<le> x then int (bit_length \<lfloor>x\<rfloor>) - 1
      else - int (bit_length (\<lceil>1 / x\<rceil> - 1)))"

definition round_half_even :: "rat \<Rightarrow> int" where
  "round_half_even m =
     (let n = \<lfloor>m\<rfloor>; r = m - of_int n
      in if r < 1 / 2 then n
         else if 1 / 2 < r then n + 1
         else if even n then n else n + 1)"

definition fl :: "rat \<Rightarrow> rat" where
  "fl x =
     (if x = 0 then 0
      else (let a = \<bar>x\<bar>;
                ulp = pow2 (exponent a - 52);
                n = round_half_even (a / ulp)
            in sgn x * (of_int n * ulp)))"

text \<open>
  A division by zero gives an infinity or NaN. The divisors and dividends below are
  differences of integers, so a zero is the positive zero.
\<close>

datatype jsnum = Num rat | PosInf | NegInf | NaN

definition js_div :: "rat \<Rightarrow> rat \<Rightarrow> jsnum" where
  "js_div a b =
     (if b = 0 then (if 0 < a then PosInf else if a < 0 then NegInf else NaN)
      else Num (fl (a / b)))"

text \<open>Multiplication by a positive finite constant, as in \<^verbatim>\<open>x * 100\<close>.\<close>

fun js_times :: "jsnum \<Rightarrow> rat \<Rightarrow> jsnum" where
  "js_times (Num x) k = Num (fl (x * k))"
| "js_times PosInf k = PosInf"
| "js_times NegInf k = NegInf"
| "js_times NaN k = NaN"

text \<open>The comparison \<^verbatim>\<open><\<close>: false as soon as one side is NaN.\<close>

fun js_less :: "jsnum \<Rightarrow> jsnum \<Rightarrow> bool" where
  "js_less NaN y = False"
| "js_less x NaN = False"
| "js_less (Num x) (Num y) = (x < y)"
| "js_less NegInf NegInf = False"
| "js_less NegInf y = True"
| "js_less x NegInf = False"
| "js_less PosInf y = False"
| "js_less x PosInf = True"

text \<open>\<^verbatim>\<open>Math.max\<close> and \<^verbatim>\<open>Math.min\<close> return NaN when an argument is NaN.\<close>

definition Math_max :: "jsnum \<Rightarrow> jsnum \<Rightarrow> jsnum" where
  "Math_max a b = (if a = NaN \<or> b = NaN then NaN else if js_less a b then b else a)"

definition Math_min :: "jsnum \<Rightarrow> jsnum \<Rightarrow> jsnum" where
  "Math_min a b = (if a = NaN \<or> b = NaN then NaN else if js_less b a then b else a)"

text \<open>\<^verbatim>\<open>Math.round\<close> rounds to the nearest integer, a half towards plus infinity.\<close>

definition Math_round :: "rat \<Rightarrow> int" where
  "Math_round x = \<lfloor>x + 1 / 2\<rfloor>"

text \<open>\<^verbatim>\<open>x || 0\<close> on a number that may be null: zero for null (and for zero).\<close>

definition or_zero :: "int option \<Rightarrow> int" where
  "or_zero v = (case v of None \<Rightarrow> 0 | Some n \<Rightarrow> n)"

section \<open>Goals and milestones (GoalsMilestones.tsx)\<close>

record Goal =
  id :: string
  user_id :: string
  title :: string
  description :: "string option"
  category :: string
  target_date :: "date_string option"
  is_completed :: bool
  completed_date :: "date_string option"
  priority :: int
  created_at :: timestamp

text \<open>
  The object passed to \<^verbatim>\<open>insert\<close>, and the row the store returns for it: the same columns
  and the \<^verbatim>\<open>id\<close> and \<^verbatim>\<open>created_at\<close> the store assigns.
\<close>

record milestone_insert =
  user_id :: string
  milestone_type :: string
  milestone_value :: int
  achieved_date :: "date_string option"
  title :: "string option"
  description :: "string option"

record Milestone = milestone_insert +
  id :: string
  created_at :: string

record milestone_entry =
  entry_type :: string
  entry_label :: string
  entry_values :: "int list"

definition MILESTONE_TYPES :: "milestone_entry list" where
  "MILESTONE_TYPES =
     [\<lparr>entry_type = ''days_clean'', entry_label = ''Days Clean'',
        entry_values = [1, 7, 30, 60, 90, 180, 365, 730]\<rparr>,
      \<lparr>entry_type = ''meetings_attended'', entry_label = ''Meetings Attended'',
        entry_values = [1, 5, 10, 25, 50, 100]\<rparr>,
      \<lparr>entry_type = ''check_ins_completed'', entry_label = ''Check-ins Completed'',
        entry_values = [7, 30, 50, 100]\<rparr>,
      \<lparr>entry_type = ''goals_achieved'', entry_label = ''Goals Achieved'',
        entry_values = [1, 3, 5, 10]\<rparr>]"

text \<open>\<^verbatim>\<open>MILESTONE_TYPES.find(m => m.type === ty)?.values || []\<close>\<close>

definition milestone_values :: "string \<Rightarrow> int list" where
  "milestone_values ty =
     (case find (\<lambda>m. entry_type m = ty) MILESTONE_TYPES of
        Some m \<Rightarrow> entry_values m
      | None \<Rightarrow> [])"

record user_profile =
  recovery_start_date :: "date_string option"

text \<open>\<^verbatim>\<open>profile?.recovery_start_date\<close>: absent when the profile or the column is null.\<close>

definition recovery_start :: "user_profile option \<Rightarrow> date_string option" where
  "recovery_start profile =
     (case profile of None \<Rightarrow> None | Some p \<Rightarrow> recovery_start_date p)"

text \<open>
  The store's answer to an insert followed by \<^verbatim>\<open>.select().single()\<close>: the \<^verbatim>\<open>id\<close> and
  \<^verbatim>\<open>created_at\<close> of the new row, or nothing when the insert fails.
\<close>

type_synonym store = "milestone_insert \<Rightarrow> (string \<times> string) option"

definition insert_milestone :: "store \<Rightarrow> milestone_insert \<Rightarrow> Milestone option" where
  "insert_milestone st p =
     (case st p of
        None \<Rightarrow> None
      | Some (i, c) \<Rightarrow>
          Some \<lparr>user_id = milestone_insert.user_id p, milestone_type = milestone_type p,
                milestone_value = milestone_value p, achieved_date = achieved_date p,
                title = milestone_insert.title p,
                description = milestone_insert.description p,
                id = i, created_at = c\<rparr>)"

definition days_clean_insert :: "string \<Rightarrow> timestamp \<Rightarrow> int \<Rightarrow> milestone_insert" where
  "days_clean_insert uid today milestone =
     \<lparr>user_id = uid, milestone_type = ''days_clean'', milestone_value = milestone,
      achieved_date = Some (toISODate today),
      title = Some (Number_toString milestone @ '' Days Clean''),
      description = Some (''Congratulations on reaching '' @ Number_toString milestone
                          @ '' days of sobriety!'')\<rparr>"

definition check_ins_insert :: "string \<Rightarrow> timestamp \<Rightarrow> int \<Rightarrow> milestone_insert" where
  "check_ins_insert uid today milestone =
     \<lparr>user_id = uid, milestone_type = ''check_ins_completed'', milestone_value = milestone,
      achieved_date = Some (toISODate today),
      title = Some (Number_toString milestone @ '' Check-ins Completed''),
      description = Some (''Great job on completing '' @ Number_toString milestone
                          @ '' daily check-ins!'')\<rparr>"

text \<open>
  The two \<^verbatim>\<open>for (const milestone of ...)\<close> loops of \<^verbatim>\<open>checkMilestones\<close> have the same body
  up to the type literal and the inserted object, which are parameters here. The loop
  carries the insert requests sent so far (oldest first) and the \<^verbatim>\<open>milestones\<close> state as
  the \<^verbatim>\<open>setMilestones(prev => [data, ...prev])\<close> updates leave it. The lookup for an
  existing milestone reads the \<^verbatim>\<open>milestones\<close> of the render that created the function
  (\<open>closure\<close>), which the updates do not change.
\<close>

fun milestone_loop ::
  "store \<Rightarrow> (int \<Rightarrow> milestone_insert) \<Rightarrow> string \<Rightarrow> int \<Rightarrow> Milestone list \<Rightarrow> int list
   \<Rightarrow> milestone_insert list \<times> Milestone list \<Rightarrow> milestone_insert list \<times> Milestone list"
where
  "milestone_loop st mk ty counter closure [] s = s"
| "milestone_loop st mk ty counter closure (milestone # rest) s =
     milestone_loop st mk ty counter closure rest
       (if counter \<ge> milestone then
          (case find (\<lambda>m. milestone_type m = ty \<and> milestone_value m = milestone) closure of
             Some existing \<Rightarrow> s
           | None \<Rightarrow>
               (case insert_milestone st (mk milestone) of
                  Some data \<Rightarrow> (fst s @ [mk milestone], data # snd s)
                | None \<Rightarrow> (fst s @ [mk milestone], snd s)))
        else s)"

text \<open>
  The state of the component that \<^verbatim>\<open>checkMilestones\<close> can see. The function is given the
  store, the user's id, the current instant, the profile row and the check-in count the
  store returns, and gives the insert requests it sent and the state afterwards.
  \<^verbatim>\<open>Math.floor\<close> of the quotient of two integers is the integer quotient rounded down.
  The second loop reads the clock again; the model takes the same instant for both.
  The celebration banner and the toasts are not part of the model.
\<close>

record component_state =
  goals :: "Goal list"
  milestones :: "Milestone list"

definition checkMilestones ::
  "store \<Rightarrow> string \<Rightarrow> timestamp \<Rightarrow> user_profile option \<Rightarrow> int option \<Rightarrow> component_state
   \<Rightarrow> milestone_insert list \<times> component_state"
where
  "checkMilestones st uid now profile count cs =
     (let s0 = ([], milestones cs);
          s1 = (case recovery_start profile of
                  None \<Rightarrow> s0
                | Some d \<Rightarrow>
                    (let recoveryStart = Date_parse d;
                         today = now;
                         daysClean = (today - recoveryStart) div MS_PER_DAY;
                         daysCleanMilestones = milestone_values ''days_clean''
                     in milestone_loop st (days_clean_insert uid today) ''days_clean''
                          daysClean (milestones cs) daysCleanMilestones s0));
          checkInsCount = or_zero count;
          checkInMilestones = milestone_values ''check_ins_completed'';
          s2 = milestone_loop st (check_ins_insert uid now) ''check_ins_completed''
                 checkInsCount (milestones cs) checkInMilestones s1
      in (fst s2, cs\<lparr>milestones := snd s2\<rparr>))"

text \<open>
  \<^verbatim>\<open>getGoalProgress\<close>, with the current instant as a parameter. \<^verbatim>\<open>target_date\<close> is a
  calendar-day column and \<^verbatim>\<open>created_at\<close> a timestamp column. Each of the two
  subtractions, the two divisions by the milliseconds of a day, the quotient and the
  product by 100 is one rounded operation.
\<close>

definition getGoalProgress :: "timestamp \<Rightarrow> Goal \<Rightarrow> jsnum" where
  "getGoalProgress now goal =
     (if is_completed goal then Num 100
      else case target_date goal of
        None \<Rightarrow> Num 0
      | Some td \<Rightarrow>
          (let today = now;
               target = Date_parse td;
               created = Goal.created_at goal;
               totalDays = fl (fl (of_int target - of_int created) / of_int MS_PER_DAY);
               elapsedDays = fl (fl (of_int today - of_int created) / of_int MS_PER_DAY)
           in Math_min (Num 100)
                (Math_max (Num 0) (js_times (js_div elapsedDays totalDays) 100))))"

definition getDaysUntilTarget :: "timestamp \<Rightarrow> date_string \<Rightarrow> string" where
  "getDaysUntilTarget now targetDate =
     (let today = now;
          target = Date_parse targetDate;
          diffTime = target - today;
          diffDays = \<lceil>(of_int diffTime :: rat) / of_int MS_PER_DAY\<rceil>
      in if diffDays < 0 then Number_toString \<bar>diffDays\<bar> @ '' days overdue''
         else if diffDays = 0 then ''Due today''
         else if diffDays = 1 then ''1 day left''
         else Number_toString diffDays @ '' days left'')"

section \<open>The dashboard\<close>

text \<open>
  A row of \<^verbatim>\<open>daily_checkins\<close> with the columns the components read. The score columns
  may be null: the code reads them as \<^verbatim>\<open>item.mood_score || 0\<close>.
\<close>

record CheckInData =
  date :: date_string
  mood_score :: "int option"
  energy_level :: "int option"
  sleep_quality :: "int option"
  trigger_tags :: "string list option"

text \<open>
  The \<^verbatim>\<open>for\<close> loop of \<^verbatim>\<open>calculateStreak\<close>, with the browser's time-zone offset and the
  current instant as parameters.
\<close>

function streak_loop :: "int \<Rightarrow> timestamp \<Rightarrow> CheckInData list \<Rightarrow> nat \<Rightarrow> nat \<Rightarrow> nat" where
  "streak_loop tzo today checkInData i streak =
     (if i < length checkInData then
        (if toDateString tzo (Date_parse (date (checkInData ! i)))
              = toDateString tzo (setDate_back today i)
         then streak_loop tzo today checkInData (i + 1) (streak + 1)
         else streak)
      else streak)"
  by pat_completeness auto
termination
  by (relation "measure (\<lambda>(tzo, today, checkInData, i, streak). length checkInData - i)") auto

definition calculateStreak :: "int \<Rightarrow> timestamp \<Rightarrow> CheckInData list \<Rightarrow> nat" where
  "calculateStreak tzo now checkInData =
     (if length checkInData = 0 then 0 else streak_loop tzo now checkInData 0 0)"

text \<open>
  \<^verbatim>\<open>fetchCheckIns\<close>: the user's rows, latest date first, at most seven of them. The order
  among rows of one date is the store's; the model keeps a stable one.
\<close>

definition fetchCheckIns :: "CheckInData list \<Rightarrow> CheckInData list" where
  "fetchCheckIns rows = take 7 (rev (sort_key date rows))"

record stats =
  totalCheckIns :: int
  avgMood :: rat
  streak :: nat

text \<open>The local \<^verbatim>\<open>avgMood\<close> of \<^verbatim>\<open>fetchStats\<close>; \<^verbatim>\<open>moodData\<close> is null when the query fails.\<close>

definition average_mood :: "CheckInData list option \<Rightarrow> rat" where
  "average_mood moodData =
     (case moodData of
        None \<Rightarrow> 0
      | Some items \<Rightarrow>
          if length items \<noteq> 0
          then of_int (foldl (\<lambda>sum item. sum + or_zero (mood_score item)) 0 items)
                 / of_nat (length items)
          else 0)"

text \<open>
  \<^verbatim>\<open>fetchStats\<close> is given the store's answers (the count, the rows of the last 30 days)
  and the \<^verbatim>\<open>checkIns\<close> state of the render that created it.
\<close>

definition fetchStats ::
  "int \<Rightarrow> timestamp \<Rightarrow> int option \<Rightarrow> CheckInData list option \<Rightarrow> CheckInData list \<Rightarrow> stats"
where
  "fetchStats tzo now count moodData checkIns =
     \<lparr>totalCheckIns = or_zero count,
      avgMood = of_int (Math_round (average_mood moodData * 10)) / 10,
      streak = calculateStreak tzo now checkIns\<rparr>"

record dashboard_state =
  checkIns :: "CheckInData list"
  dashboard_stats :: stats

definition dashboard_initial :: dashboard_state where
  "dashboard_initial =
     \<lparr>checkIns = [], dashboard_stats = \<lparr>totalCheckIns = 0, avgMood = 0, streak = 0\<rparr>\<rparr>"

text \<open>
  The effect that runs once after the first render calls \<^verbatim>\<open>fetchCheckIns()\<close> and
  \<^verbatim>\<open>fetchStats()\<close>. Both functions belong to the first render, so the \<^verbatim>\<open>checkIns\<close> that
  \<^verbatim>\<open>fetchStats\<close> passes to \<^verbatim>\<open>calculateStreak\<close> is the initial state.
\<close>

definition Dashboard_mount :: "int \<Rightarrow> timestamp \<Rightarrow> CheckInData list \<Rightarrow> dashboard_state" where
  "Dashboard_mount tzo now rows =
     \<lparr>checkIns = fetchCheckIns rows,
      dashboard_stats =
        fetchStats tzo now (Some (int (length rows)))
          (Some (filter (\<lambda>c. toISODate (now - 30 * 24 * 60 * 60 * 1000) \<le> date c) rows))
          (checkIns dashboard_initial)\<rparr>"

section \<open>The progress report (ProgressCharts.tsx)\<close>

datatype timeRange = Range7 | Range30 | Range90

fun parseInt :: "timeRange \<Rightarrow> nat" where
  "parseInt Range7 = 7"
| "parseInt Range30 = 30"
| "parseInt Range90 = 90"

text \<open>\<^verbatim>\<open>fetchData\<close>: the rows dated on or after the UTC day of the instant \<open>timeRange\<close> days ago, oldest first.\<close>

definition fetchData :: "timestamp \<Rightarrow> timeRange \<Rightarrow> CheckInData list \<Rightarrow> CheckInData list" where
  "fetchData now tr rows =
     (let daysAgo = setDate_back now (parseInt tr)
      in sort_key date (filter (\<lambda>c. toISODate daysAgo \<le> date c) rows))"

text \<open>
  The summary cards are rendered only when \<^verbatim>\<open>checkIns.length\<close> is not zero; otherwise the
  page shows its empty panel. The numbers below are the arguments of \<^verbatim>\<open>toFixed(1)\<close> and
  of the \<^verbatim>\<open>%\<close> template.
\<close>

definition average_mood_card :: "CheckInData list \<Rightarrow> rat option" where
  "average_mood_card cins =
     (if length cins = 0 then None
      else Some (of_int (foldl (\<lambda>sum item. sum + or_zero (mood_score item)) 0 cins)
                   / of_nat (length cins)))"

definition consistency_card :: "timeRange \<Rightarrow> CheckInData list \<Rightarrow> int option" where
  "consistency_card tr cins =
     (if length cins = 0 then None
      else Some (Math_round ((of_nat (length cins) / of_nat (parseInt tr)) * 100)))"

text \<open>\<^verbatim>\<open>checkIns.slice(-n)\<close>: the last \<open>n\<close> elements, all of them when there are fewer.\<close>

definition slice_last :: "nat \<Rightarrow> 'a list \<Rightarrow> 'a list" where
  "slice_last n xs = drop (length xs - n) xs"

text \<open>The local \<^verbatim>\<open>avgEnergy\<close> of \<^verbatim>\<open>getInsights\<close>, which returns early on an empty list.\<close>

definition getInsights_avgEnergy :: "CheckInData list \<Rightarrow> rat option" where
  "getInsights_avgEnergy cins =
     (if length cins = 0 then None
      else (let energyTrend = map (\<lambda>c. or_zero (energy_level c)) (slice_last 5 cins)
            in Some (of_int (foldl (\<lambda>a b. a + b) 0 energyTrend)
                       / of_nat (length energyTrend))))"

section \<open>Notions of the specification\<close>

text \<open>
  What the claims call the milestones already achieved and the thresholds newly earned:
  a threshold of the table at or below the counter with no milestone of that type and
  value among the existing ones.
\<close>

definition achieved :: "Milestone list \<Rightarrow> string \<Rightarrow> int \<Rightarrow> bool" where
  "achieved ms ty v = (\<exists>m \<in> set ms. milestone_type m = ty \<and> milestone_value m = v)"

definition newly_earned :: "Milestone list \<Rightarrow> string \<Rightarrow> int list \<Rightarrow> int \<Rightarrow> int list" where
  "newly_earned ms ty table counter = filter (\<lambda>v. v \<le> counter \<and> \<not> achieved ms ty v) table"

definition emitted :: "milestone_insert list \<Rightarrow> (string \<times> int) list" where
  "emitted ps = map (\<lambda>p. (milestone_type p, milestone_value p)) ps"

text \<open>
  The goal-progress rule in the specification's terms, in exact arithmetic: elapsed and
  total in days, their quotient as a percentage, clamped to the range from 0 to 100.
\<close>

definition spec_clamp :: "rat \<Rightarrow> rat \<Rightarrow> rat \<Rightarrow> rat" where
  "spec_clamp x lo hi = (if x < lo then lo else if hi < x then hi else x)"

definition days_between :: "timestamp \<Rightarrow> timestamp \<Rightarrow> rat" where
  "days_between a b = of_int (b - a) / 86400000"

definition spec_percentage :: "timestamp \<Rightarrow> timestamp \<Rightarrow> timestamp \<Rightarrow> rat" where
  "spec_percentage created target today =
     spec_clamp (days_between created today / days_between created target * 100) 0 100"

text \<open>
  The unit roundoff of double precision, and a value \<open>y\<close> within \<open>k\<close> unit roundoffs of
  \<open>x\<close>, relative to \<open>x\<close>.
\<close>

definition unit_roundoff :: rat where
  "unit_roundoff = 1 / 2 ^ 53"

definition close_to :: "nat \<Rightarrow> rat \<Rightarrow> rat \<Rightarrow> bool" where
  "close_to k y x = (\<bar>y - x\<bar> \<le> of_nat k * unit_roundoff * \<bar>x\<bar>)"

text \<open>
  The streak in the specification's terms: the length of the longest prefix of the dates
  in which the first date is today, the second the day before, and so on.
\<close>

fun unbroken_prefix :: "int \<Rightarrow> int list \<Rightarrow> nat" where
  "unbroken_prefix today [] = 0"
| "unbroken_prefix today (d # ds) =
     (if d = today then Suc (unbroken_prefix (today - 1) ds) else 0)"

text \<open>
  An average in the specification's terms: the sum of a score over the records, a
  missing score counted as 0, divided by the number of records, and 0 for no records.
\<close>

definition spec_average :: "(CheckInData \<Rightarrow> int option) \<Rightarrow> CheckInData list \<Rightarrow> rat" where
  "spec_average score items =
     (if items = [] then 0
      else of_int (sum_list (map (\<lambda>item. or_zero (score item)) items)) / of_nat (length items))"

section \<open>Sample data\<close>

text \<open>
  Check-ins: one with given date; ten on the consecutive days up to 2024-01-15 (day
  19737), latest first; one with a mood only; six with energy levels 5, 1, 1, 1, 1, 1;
  eight on the consecutive days up to 2024-01-15. The instant 1705330800000 is
  2024-01-15 15:00 UTC.
\<close>

definition checkin_on :: "date_string \<Rightarrow> CheckInData" where
  "checkin_on d =
     \<lparr>date = d, mood_score = Some 7, energy_level = Some 3, sleep_quality = Some 4,
      trigger_tags = Some [''Stress'']\<rparr>"

definition ten_days :: "CheckInData list" where
  "ten_days = map checkin_on [19737, 19736, 19735, 19734, 19733, 19732, 19731, 19730, 19729, 19728]"

definition mood_only :: "int \<Rightarrow> CheckInData" where
  "mood_only m =
     \<lparr>date = 19737, mood_score = Some m, energy_level = None, sleep_quality = None,
      trigger_tags = None\<rparr>"

definition energy_on :: "date_string \<Rightarrow> int \<Rightarrow> CheckInData" where
  "energy_on d e =
     \<lparr>date = d, mood_score = Some 6, energy_level = Some e, sleep_quality = Some 3,
      trigger_tags = Some []\<rparr>"

definition six_days :: "CheckInData list" where
  "six_days = [energy_on 19732 5, energy_on 19733 1, energy_on 19734 1, energy_on 19735 1,
               energy_on 19736 1, energy_on 19737 1]"

definition eight_days :: "CheckInData list" where
  "eight_days = map checkin_on [19730, 19731, 19732, 19733, 19734, 19735, 19736, 19737]"

text \<open>
  A goal created at day 0 and due on day 10; ones due on day 20 and on day 40; a goal
  without a target date; a goal created at midnight UTC of its target day; a goal
  created at noon UTC of its target day.
\<close>

definition goal_ten_days :: Goal where
  "goal_ten_days =
     \<lparr>Goal.id = ''g2'', user_id = ''u1'', title = ''Thirty meetings'', description = None,
      category = ''Recovery'', target_date = Some 10, is_completed = False,
      completed_date = None, priority = 2, created_at = 0\<rparr>"

definition goal_twenty_days :: Goal where
  "goal_twenty_days =
     \<lparr>Goal.id = ''g5'', user_id = ''u1'', title = ''Daily journal'', description = None,
      category = ''Personal Growth'', target_date = Some 20, is_completed = False,
      completed_date = None, priority = 2, created_at = 0\<rparr>"

definition goal_forty_days :: Goal where
  "goal_forty_days =
     \<lparr>Goal.id = ''g7'', user_id = ''u1'', title = ''Forty days of walks'', description = None,
      category = ''Health & Wellness'', target_date = Some 40, is_completed = False,
      completed_date = None, priority = 3, created_at = 0\<rparr>"

definition goal_open :: Goal where
  "goal_open =
     \<lparr>Goal.id = ''g6'', user_id = ''u1'', title = ''Learn to cook'', description = None,
      category = ''Hobbies'', target_date = None, is_completed = False,
      completed_date = None, priority = 4, created_at = 1705000000000\<rparr>"

definition goal_same_instant :: Goal where
  "goal_same_instant =
     \<lparr>Goal.id = ''g3'', user_id = ''u1'', title = ''Write amends letter'', description = None,
      category = ''Relationships'', target_date = Some 10, is_completed = False,
      completed_date = None, priority = 3, created_at = 10 * 86400000\<rparr>"

definition goal_late :: Goal where
  "goal_late =
     \<lparr>Goal.id = ''g4'', user_id = ''u1'', title = ''Find a sponsor'', description = None,
      category = ''Recovery'', target_date = Some 10, is_completed = False,
      completed_date = None, priority = 1, created_at = 10 * 86400000 + 43200000\<rparr>"

text \<open>A store that accepts every insert, and one that refuses every insert.\<close>

definition store_ok :: store where
  "store_ok p = Some (''row-'' @ milestone_type p @ ''-'' @ Number_toString (milestone_value p),
                      ''2024-01-15T15:00:00Z'')"

definition store_down :: store where
  "store_down p = None"

definition seven_days_clean :: Milestone where
  "seven_days_clean =
     \<lparr>user_id = ''u1'', milestone_type = ''days_clean'', milestone_value = 7,
      achieved_date = Some 7, title = Some ''7 Days Clean'',
      description = Some ''Congratulations on reaching 7 days of sobriety!'',
      id = ''m7'', created_at = ''1970-01-08T08:00:00Z''\<rparr>"

definition goal_done :: Goal where
  "goal_done =
     \<lparr>Goal.id = ''g1'', user_id = ''u1'', title = ''Call sponsor'', description = None,
      category = ''Recovery'', target_date = None, is_completed = True,
      completed_date = Some 19737, priority = 1, created_at = 1705000000000\<rparr>"

section \<open>Properties of the milestone evaluation\<close>

declare decimal.simps [simp del]

lemma milestone_values_days_clean:
  "milestone_values ''days_clean'' = [1, 7, 30, 60, 90, 180, 365, 730]"
  by (simp add: milestone_values_def MILESTONE_TYPES_def)

lemma milestone_values_check_ins:
  "milestone_values ''check_ins_completed'' = [7, 30, 50, 100]"
  by (simp add: milestone_values_def MILESTONE_TYPES_def)

lemma find_none_achieved:
  "(find (\<lambda>m. milestone_type m = ty \<and> milestone_value m = v) ms = None) = (\<not> achieved ms ty v)"
  by (auto simp: find_None_iff achieved_def)

lemma newly_earned_iff:
  "v \<in> set (newly_earned ms ty tab c) \<longleftrightarrow> v \<in> set tab \<and> v \<le> c \<and> \<not> achieved ms ty v"
  by (auto simp: newly_earned_def)

lemma newly_earned_none:
  "(\<And>v. v \<in> set tab \<Longrightarrow> v \<le> c \<Longrightarrow> achieved ms ty v) \<Longrightarrow> newly_earned ms ty tab c = []"
  unfolding newly_earned_def filter_empty_conv by blast

text \<open>The requests a loop sends: one for each newly earned threshold, in table order.\<close>

lemma milestone_loop_requests:
  "fst (milestone_loop st mk ty c cl ts s) = fst s @ map mk (newly_earned cl ty ts c)"
proof (induction ts arbitrary: s)
  case Nil
  show ?case by (simp add: newly_earned_def)
next
  case (Cons t ts)
  show ?case
  proof (cases "t \<le> c \<and> \<not> achieved cl ty t")
    case True
    then have f: "find (\<lambda>m. milestone_type m = ty \<and> milestone_value m = t) cl = None"
      by (simp add: find_none_achieved)
    from True f show ?thesis
      by (simp add: Cons.IH newly_earned_def split: option.split)
  next
    case False
    then have "c < t \<or> find (\<lambda>m. milestone_type m = ty \<and> milestone_value m = t) cl \<noteq> None"
      using find_none_achieved [of ty t cl] by auto
    with False show ?thesis
      by (auto simp: Cons.IH newly_earned_def)
  qed
qed

text \<open>The state a loop leaves: the rows of the inserts that succeeded are added.\<close>

lemma milestone_loop_state:
  "set (snd (milestone_loop st mk ty c cl ts s)) =
     set (snd s) \<union> {d. \<exists>v \<in> set (newly_earned cl ty ts c). insert_milestone st (mk v) = Some d}"
proof (induction ts arbitrary: s)
  case Nil
  show ?case by (simp add: newly_earned_def)
next
  case (Cons t ts)
  show ?case
  proof (cases "t \<le> c \<and> \<not> achieved cl ty t")
    case True
    then have f: "find (\<lambda>m. milestone_type m = ty \<and> milestone_value m = t) cl = None"
      by (simp add: find_none_achieved)
    from True f show ?thesis
      by (auto simp: Cons.IH newly_earned_def split: option.split)
  next
    case False
    then have "c < t \<or> find (\<lambda>m. milestone_type m = ty \<and> milestone_value m = t) cl \<noteq> None"
      using find_none_achieved [of ty t cl] by auto
    with False show ?thesis
      by (auto simp: Cons.IH newly_earned_def)
  qed
qed

lemma checkMilestones_requests:
  "fst (checkMilestones st uid now profile count cs) =
     (case recovery_start profile of
        None \<Rightarrow> []
      | Some d \<Rightarrow> map (days_clean_insert uid now)
          (newly_earned (milestones cs) ''days_clean'' (milestone_values ''days_clean'')
             ((now - Date_parse d) div MS_PER_DAY)))
     @ map (check_ins_insert uid now)
         (newly_earned (milestones cs) ''check_ins_completed''
            (milestone_values ''check_ins_completed'') (or_zero count))"
  by (simp add: checkMilestones_def Let_def milestone_loop_requests split: option.split)

lemma checkMilestones_state:
  "set (milestones (snd (checkMilestones st uid now profile count cs))) =
     set (milestones cs) \<union>
     {d. \<exists>p \<in> set (fst (checkMilestones st uid now profile count cs)).
            insert_milestone st p = Some d}"
  by (auto simp: checkMilestones_def Let_def milestone_loop_state milestone_loop_requests
      split: option.split)

lemma emitted_Nil: "emitted [] = []"
  by (simp add: emitted_def)

lemma emitted_append: "emitted (ps @ qs) = emitted ps @ emitted qs"
  by (simp add: emitted_def)

lemma emitted_days_clean:
  "emitted (map (days_clean_insert uid now) vs) = map (Pair ''days_clean'') vs"
  by (simp add: emitted_def days_clean_insert_def)

lemma emitted_check_ins:
  "emitted (map (check_ins_insert uid now) vs) = map (Pair ''check_ins_completed'') vs"
  by (simp add: emitted_def check_ins_insert_def)

lemma checkMilestones_emitted:
  "emitted (fst (checkMilestones st uid now profile count cs)) =
     (case recovery_start profile of
        None \<Rightarrow> []
      | Some d \<Rightarrow> map (Pair ''days_clean'')
          (newly_earned (milestones cs) ''days_clean'' [1, 7, 30, 60, 90, 180, 365, 730]
             ((now - Date_parse d) div MS_PER_DAY)))
     @ map (Pair ''check_ins_completed'')
         (newly_earned (milestones cs) ''check_ins_completed'' [7, 30, 50, 100] (or_zero count))"
  by (simp add: checkMilestones_requests emitted_append emitted_days_clean emitted_check_ins
      emitted_Nil milestone_values_days_clean milestone_values_check_ins split: option.split)

lemma thirty_five_days_clean: "(35 * MS_PER_DAY + 1000 - Date_parse 0) div MS_PER_DAY = 35"
  by (simp add: MS_PER_DAY_def Date_parse_def)

text \<open>
  Claim C1. One pass of \<^verbatim>\<open>checkMilestones\<close> sends an insert for exactly the thresholds of
  the fixed table that are at or below the counter and have no existing milestone of the
  same type and value, in table order: the days-clean table against the whole days since
  the recovery start (when there is one), then the check-in table against the check-in
  count. With 35 days clean and no milestones the pass emits 1, 7 and 30; with a
  milestone for 7 already there it emits 1 and 30.
\<close>

theorem checkMilestones_emits_newly_earned:
  "emitted (fst (checkMilestones st uid now profile count cs)) =
     (case recovery_start profile of
        None \<Rightarrow> []
      | Some d \<Rightarrow> map (Pair ''days_clean'')
          (newly_earned (milestones cs) ''days_clean'' [1, 7, 30, 60, 90, 180, 365, 730]
             ((now - Date_parse d) div MS_PER_DAY)))
     @ map (Pair ''check_ins_completed'')
         (newly_earned (milestones cs) ''check_ins_completed'' [7, 30, 50, 100] (or_zero count))
   \<and> (35 * MS_PER_DAY + 1000 - Date_parse 0) div MS_PER_DAY = 35
   \<and> emitted (fst (checkMilestones st uid (35 * MS_PER_DAY + 1000)
          (Some \<lparr>recovery_start_date = Some 0\<rparr>) (Some 0) \<lparr>goals = [], milestones = []\<rparr>))
       = [(''days_clean'', 1), (''days_clean'', 7), (''days_clean'', 30)]
   \<and> emitted (fst (checkMilestones st uid (35 * MS_PER_DAY + 1000)
          (Some \<lparr>recovery_start_date = Some 0\<rparr>) (Some 0)
          \<lparr>goals = [], milestones = [seven_days_clean]\<rparr>))
       = [(''days_clean'', 1), (''days_clean'', 30)]"
proof (intro conjI)
  show "emitted (fst (checkMilestones st uid (35 * MS_PER_DAY + 1000)
          (Some \<lparr>recovery_start_date = Some 0\<rparr>) (Some 0) \<lparr>goals = [], milestones = []\<rparr>))
       = [(''days_clean'', 1), (''days_clean'', 7), (''days_clean'', 30)]"
    by (simp add: checkMilestones_emitted thirty_five_days_clean recovery_start_def
        newly_earned_def achieved_def or_zero_def)
  show "emitted (fst (checkMilestones st uid (35 * MS_PER_DAY + 1000)
          (Some \<lparr>recovery_start_date = Some 0\<rparr>) (Some 0)
          \<lparr>goals = [], milestones = [seven_days_clean]\<rparr>))
       = [(''days_clean'', 1), (''days_clean'', 30)]"
    by (simp add: checkMilestones_emitted thirty_five_days_clean recovery_start_def
        newly_earned_def achieved_def seven_days_clean_def or_zero_def)
qed (rule checkMilestones_emitted thirty_five_days_clean)+

lemma insert_milestone_row:
  "insert_milestone st p = Some d \<Longrightarrow>
     milestone_type d = milestone_type p \<and> milestone_value d = milestone_value p"
  by (auto simp: insert_milestone_def split: option.splits)

lemma insert_milestone_some: "st p \<noteq> None \<Longrightarrow> \<exists>d. insert_milestone st p = Some d"
  by (auto simp: insert_milestone_def split: option.splits)

lemma achieved_after_insert:
  assumes "p \<in> set (fst (checkMilestones st uid now profile count cs))" and "st p \<noteq> None"
  shows "achieved (milestones (snd (checkMilestones st uid now profile count cs)))
           (milestone_type p) (milestone_value p)"
proof -
  from assms(2) obtain d where d: "insert_milestone st p = Some d"
    using insert_milestone_some by blast
  with assms(1) have "d \<in> set (milestones (snd (checkMilestones st uid now profile count cs)))"
    unfolding checkMilestones_state by blast
  with insert_milestone_row [OF d] show ?thesis
    unfolding achieved_def by blast
qed

lemma achieved_kept:
  "achieved (milestones cs) ty v \<Longrightarrow>
     achieved (milestones (snd (checkMilestones st uid now profile count cs))) ty v"
  unfolding achieved_def checkMilestones_state by blast

lemma days_clean_insert_key:
  "milestone_type (days_clean_insert uid now v) = ''days_clean''"
  "milestone_value (days_clean_insert uid now v) = v"
  by (simp_all add: days_clean_insert_def)

lemma check_ins_insert_key:
  "milestone_type (check_ins_insert uid now v) = ''check_ins_completed''"
  "milestone_value (check_ins_insert uid now v) = v"
  by (simp_all add: check_ins_insert_def)

lemma achieved_after_run:
  "achieved (milestones (snd (checkMilestones st uid now profile count cs))) ty v \<longleftrightarrow>
     achieved (milestones cs) ty v \<or>
     (\<exists>p \<in> set (fst (checkMilestones st uid now profile count cs)).
        st p \<noteq> None \<and> milestone_type p = ty \<and> milestone_value p = v)"
  (is "?L \<longleftrightarrow> ?R")
proof
  assume ?L
  then obtain m where m: "m \<in> set (milestones (snd (checkMilestones st uid now profile count cs)))"
    "milestone_type m = ty" "milestone_value m = v"
    unfolding achieved_def by blast
  from m(1) consider "m \<in> set (milestones cs)"
    | p where "p \<in> set (fst (checkMilestones st uid now profile count cs))"
        "insert_milestone st p = Some m"
    unfolding checkMilestones_state by blast
  then show ?R
  proof cases
    case 1
    with m show ?thesis unfolding achieved_def by blast
  next
    case 2
    from 2(2) have "st p \<noteq> None"
      by (auto simp: insert_milestone_def split: option.splits)
    with 2 m insert_milestone_row [OF 2(2)] show ?thesis by auto
  qed
next
  assume ?R
  then show ?L
    using achieved_kept achieved_after_insert by blast
qed

lemma request_iff:
  "p \<in> set (fst (checkMilestones st uid now profile count cs)) \<longleftrightarrow>
     (\<exists>d v. recovery_start profile = Some d \<and>
        v \<in> set (newly_earned (milestones cs) ''days_clean'' (milestone_values ''days_clean'')
                   ((now - Date_parse d) div MS_PER_DAY)) \<and>
        p = days_clean_insert uid now v) \<or>
     (\<exists>v. v \<in> set (newly_earned (milestones cs) ''check_ins_completed''
                   (milestone_values ''check_ins_completed'') (or_zero count)) \<and>
        p = check_ins_insert uid now v)"
proof (cases "recovery_start profile")
  case None
  then show ?thesis
    by (auto simp: checkMilestones_requests)
next
  case (Some d)
  then show ?thesis
    by (auto simp: checkMilestones_requests)
qed

lemma accepted_days_clean:
  "(\<exists>p \<in> set (fst (checkMilestones st uid now profile count cs)).
      st p \<noteq> None \<and> milestone_type p = ''days_clean'' \<and> milestone_value p = v) \<longleftrightarrow>
   (\<exists>d. recovery_start profile = Some d \<and>
      v \<in> set (newly_earned (milestones cs) ''days_clean'' (milestone_values ''days_clean'')
                 ((now - Date_parse d) div MS_PER_DAY)) \<and>
      st (days_clean_insert uid now v) \<noteq> None)"
  (is "?L \<longleftrightarrow> ?R")
proof
  assume ?L
  then obtain p where p: "p \<in> set (fst (checkMilestones st uid now profile count cs))"
    "st p \<noteq> None" "milestone_type p = ''days_clean''" "milestone_value p = v"
    by blast
  from p(1) [unfolded request_iff] show ?R
  proof (elim disjE exE conjE)
    fix d w
    assume "recovery_start profile = Some d"
      "w \<in> set (newly_earned (milestones cs) ''days_clean'' (milestone_values ''days_clean'')
                  ((now - Date_parse d) div MS_PER_DAY))"
      "p = days_clean_insert uid now w"
    with p(2,4) show ?R
      by (auto simp: days_clean_insert_key)
  next
    fix w
    assume "p = check_ins_insert uid now w"
    with p(3) show ?R
      by (simp add: check_ins_insert_key)
  qed
next
  assume ?R
  then obtain d where d: "recovery_start profile = Some d"
    "v \<in> set (newly_earned (milestones cs) ''days_clean'' (milestone_values ''days_clean'')
                 ((now - Date_parse d) div MS_PER_DAY))"
    "st (days_clean_insert uid now v) \<noteq> None"
    by blast
  from d(1,2) have "days_clean_insert uid now v
                      \<in> set (fst (checkMilestones st uid now profile count cs))"
    unfolding request_iff by blast
  with d(3) show ?L
    using days_clean_insert_key [of uid now v] by blast
qed

lemma accepted_check_ins:
  "(\<exists>p \<in> set (fst (checkMilestones st uid now profile count cs)).
      st p \<noteq> None \<and> milestone_type p = ''check_ins_completed'' \<and> milestone_value p = v) \<longleftrightarrow>
   (v \<in> set (newly_earned (milestones cs) ''check_ins_completed''
                 (milestone_values ''check_ins_completed'') (or_zero count)) \<and>
      st (check_ins_insert uid now v) \<noteq> None)"
  (is "?L \<longleftrightarrow> ?R")
proof
  assume ?L
  then obtain p where p: "p \<in> set (fst (checkMilestones st uid now profile count cs))"
    "st p \<noteq> None" "milestone_type p = ''check_ins_completed''" "milestone_value p = v"
    by blast
  from p(1) [unfolded request_iff] show ?R
  proof (elim disjE exE conjE)
    fix d w
    assume "p = days_clean_insert uid now w"
    with p(3) show ?R
      by (simp add: days_clean_insert_key)
  next
    fix w
    assume "w \<in> set (newly_earned (milestones cs) ''check_ins_completed''
                  (milestone_values ''check_ins_completed'') (or_zero count))"
      "p = check_ins_insert uid now w"
    with p(2,4) show ?R
      by (auto simp: check_ins_insert_key)
  qed
next
  assume r: ?R
  then have "check_ins_insert uid now v
               \<in> set (fst (checkMilestones st uid now profile count cs))"
    unfolding request_iff by blast
  with r show ?L
    using check_ins_insert_key [of uid now v] by blast
qed

lemma newly_earned_again:
  assumes "\<And>v. achieved ms' ty v \<longleftrightarrow>
             achieved ms ty v \<or> (v \<in> set (newly_earned ms ty tab c) \<and> st (mk v) \<noteq> None)"
  shows "map mk (newly_earned ms' ty tab c)
           = filter (\<lambda>p. st p = None) (map mk (newly_earned ms ty tab c))"
proof -
  have "newly_earned ms' ty tab c = filter (\<lambda>v. st (mk v) = None) (newly_earned ms ty tab c)"
    unfolding newly_earned_def filter_filter
    by (rule filter_cong [OF refl]) (auto simp: assms newly_earned_def)
  then show ?thesis
    by (simp add: filter_map comp_def)
qed

lemma second_pass_requests:
  "fst (checkMilestones st' uid now profile count
          (snd (checkMilestones st uid now profile count cs)))
     = filter (\<lambda>p. st p = None) (fst (checkMilestones st uid now profile count cs))"
proof -
  let ?ms' = "milestones (snd (checkMilestones st uid now profile count cs))"
  have dc: "map (days_clean_insert uid now)
              (newly_earned ?ms' ''days_clean'' (milestone_values ''days_clean'')
                 ((now - Date_parse d) div MS_PER_DAY))
            = filter (\<lambda>p. st p = None) (map (days_clean_insert uid now)
                (newly_earned (milestones cs) ''days_clean'' (milestone_values ''days_clean'')
                   ((now - Date_parse d) div MS_PER_DAY)))"
    if "recovery_start profile = Some d" for d
    by (rule newly_earned_again) (simp only: achieved_after_run accepted_days_clean that, blast)
  have ci: "map (check_ins_insert uid now)
              (newly_earned ?ms' ''check_ins_completed''
                 (milestone_values ''check_ins_completed'') (or_zero count))
            = filter (\<lambda>p. st p = None) (map (check_ins_insert uid now)
                (newly_earned (milestones cs) ''check_ins_completed''
                   (milestone_values ''check_ins_completed'') (or_zero count)))"
    by (rule newly_earned_again) (simp only: achieved_after_run accepted_check_ins)
  show ?thesis
    by (simp add: checkMilestones_requests [of st'] checkMilestones_requests [of st] dc ci
        split: option.split)
qed

text \<open>
  Claim C5. The evaluation is idempotent. A second pass over the state that a first pass
  left, with the same counters, sends again exactly the inserts that the store refused
  in the first pass, whatever the store would answer now. So when the milestones of the
  first pass were inserted and are in the state, the second pass inserts nothing.
\<close>

theorem checkMilestones_idempotent:
  "fst (checkMilestones st' uid now profile count
          (snd (checkMilestones st uid now profile count cs)))
     = filter (\<lambda>p. st p = None) (fst (checkMilestones st uid now profile count cs))
   \<and> ((\<forall>p \<in> set (fst (checkMilestones st uid now profile count cs)). st p \<noteq> None) \<longrightarrow>
        fst (checkMilestones st' uid now profile count
               (snd (checkMilestones st uid now profile count cs))) = [])"
  by (simp add: second_pass_requests filter_empty_conv)

text \<open>
  A first pass at 35 days clean and 8 check-ins inserts four milestones; the second pass
  over the resulting state sends nothing.
\<close>

theorem checkMilestones_idempotent_witness:
  "emitted (fst (checkMilestones store_ok ''u1'' (35 * MS_PER_DAY + 1000)
            (Some \<lparr>recovery_start_date = Some 0\<rparr>) (Some 8) \<lparr>goals = [], milestones = []\<rparr>))
     = [(''days_clean'', 1), (''days_clean'', 7), (''days_clean'', 30),
        (''check_ins_completed'', 7)]
   \<and> fst (checkMilestones store_down ''u1'' (35 * MS_PER_DAY + 1000)
            (Some \<lparr>recovery_start_date = Some 0\<rparr>) (Some 8)
            (snd (checkMilestones store_ok ''u1'' (35 * MS_PER_DAY + 1000)
               (Some \<lparr>recovery_start_date = Some 0\<rparr>) (Some 8)
               \<lparr>goals = [], milestones = []\<rparr>))) = []"
proof
  show "emitted (fst (checkMilestones store_ok ''u1'' (35 * MS_PER_DAY + 1000)
            (Some \<lparr>recovery_start_date = Some 0\<rparr>) (Some 8) \<lparr>goals = [], milestones = []\<rparr>))
     = [(''days_clean'', 1), (''days_clean'', 7), (''days_clean'', 30),
        (''check_ins_completed'', 7)]"
    by (simp add: checkMilestones_emitted thirty_five_days_clean recovery_start_def
        newly_earned_def achieved_def or_zero_def)
  show "fst (checkMilestones store_down ''u1'' (35 * MS_PER_DAY + 1000)
            (Some \<lparr>recovery_start_date = Some 0\<rparr>) (Some 8)
            (snd (checkMilestones store_ok ''u1'' (35 * MS_PER_DAY + 1000)
               (Some \<lparr>recovery_start_date = Some 0\<rparr>) (Some 8)
               \<lparr>goals = [], milestones = []\<rparr>))) = []"
    using checkMilestones_idempotent [of store_down "''u1''" "35 * MS_PER_DAY + 1000"
        "Some \<lparr>recovery_start_date = Some 0\<rparr>" "Some 8" store_ok
        "\<lparr>goals = [], milestones = []\<rparr>"]
    by (simp add: store_ok_def)
qed

lemma milestone_type_emitted: "map milestone_type ps = map fst (emitted ps)"
  by (simp add: emitted_def)

lemma checkMilestones_emitted_tables:
  "emitted (fst (checkMilestones st uid now profile count cs)) =
     (case recovery_start profile of
        None \<Rightarrow> []
      | Some d \<Rightarrow> map (Pair ''days_clean'')
          (newly_earned (milestones cs) ''days_clean'' (milestone_values ''days_clean'')
             ((now - Date_parse d) div MS_PER_DAY)))
     @ map (Pair ''check_ins_completed'')
         (newly_earned (milestones cs) ''check_ins_completed''
            (milestone_values ''check_ins_completed'') (or_zero count))"
  by (simp add: checkMilestones_requests emitted_append emitted_days_clean emitted_check_ins
      emitted_Nil split: option.split)

lemma milestone_values_unused:
  "milestone_values ''meetings_attended'' = [1, 5, 10, 25, 50, 100]"
  "milestone_values ''goals_achieved'' = [1, 3, 5, 10]"
  by (simp_all add: milestone_values_def MILESTONE_TYPES_def)

text \<open>
  Claim C9, as the code has it. \<^verbatim>\<open>checkMilestones\<close> evaluates two counters, the days clean
  and the check-ins completed. It compares each with its table of \<^verbatim>\<open>MILESTONE_TYPES\<close> and
  sends an insert for exactly the thresholds at or below the counter that have no
  existing milestone of that type and value; every insert it sends has one of these two
  types, and the goals of the component have no influence on what it sends. The tables
  for \<^verbatim>\<open>meetings_attended\<close> and \<^verbatim>\<open>goals_achieved\<close> are declared and never read.
\<close>

theorem checkMilestones_two_counters:
  "emitted (fst (checkMilestones st uid now profile count cs)) =
     (case recovery_start profile of
        None \<Rightarrow> []
      | Some d \<Rightarrow> map (Pair ''days_clean'')
          (newly_earned (milestones cs) ''days_clean'' (milestone_values ''days_clean'')
             ((now - Date_parse d) div MS_PER_DAY)))
     @ map (Pair ''check_ins_completed'')
         (newly_earned (milestones cs) ''check_ins_completed''
            (milestone_values ''check_ins_completed'') (or_zero count))
   \<and> set (map milestone_type (fst (checkMilestones st uid now profile count cs)))
       \<subseteq> {''days_clean'', ''check_ins_completed''}
   \<and> fst (checkMilestones st uid now profile count (cs\<lparr>goals := gs\<rparr>))
       = fst (checkMilestones st uid now profile count cs)
   \<and> milestone_values ''meetings_attended'' = [1, 5, 10, 25, 50, 100]
   \<and> milestone_values ''goals_achieved'' = [1, 3, 5, 10]"
proof (intro conjI)
  show "set (map milestone_type (fst (checkMilestones st uid now profile count cs)))
     \<subseteq> {''days_clean'', ''check_ins_completed''}"
    unfolding milestone_type_emitted checkMilestones_emitted
    by (auto split: option.split)
  show "fst (checkMilestones st uid now profile count (cs\<lparr>goals := gs\<rparr>))
       = fst (checkMilestones st uid now profile count cs)"
    by (simp add: checkMilestones_requests split: option.split)
qed (rule checkMilestones_emitted_tables milestone_values_unused)+

text \<open>
  Claim C9 as stated fails: with one completed goal, the threshold 1 of the
  \<^verbatim>\<open>goals_achieved\<close> table reached and no milestone for it, the pass sends no insert.
\<close>

theorem four_counters_counterexample:
  "length (filter is_completed [goal_done]) = 1
   \<and> 1 \<in> set (milestone_values ''goals_achieved'')
   \<and> \<not> achieved [] ''goals_achieved'' 1
   \<and> fst (checkMilestones store_ok ''u1'' 1705330800000 None (Some 0)
            \<lparr>goals = [goal_done], milestones = []\<rparr>) = []"
  by (simp add: goal_done_def milestone_values_def MILESTONE_TYPES_def achieved_def
      checkMilestones_requests recovery_start_def newly_earned_def or_zero_def)

section \<open>Properties of the rounding\<close>

text \<open>
  The rounded value differs from the exact one by at most the unit roundoff times the
  exact one. \<open>close_to k y x\<close> bounds the error of \<open>y\<close> for \<open>x\<close> by \<open>k\<close> unit roundoffs
  of \<open>x\<close>; it is kept through the operations of the code.
\<close>

declare bit_length.simps [simp del]

lemma bit_length_bounds:
  "0 < n \<Longrightarrow> 2 ^ (bit_length n - 1) \<le> n \<and> n < 2 ^ bit_length n"
proof (induction n rule: bit_length.induct)
  case (1 n)
  show ?case
  proof (cases "n = 1")
    case True
    then show ?thesis
      by (simp add: bit_length.simps [of 1] bit_length.simps [of 0])
  next
    case False
    with 1(2) have h: "0 < n div 2" by simp
    from 1(2) have nle: "\<not> n \<le> 0" by simp
    from "1.IH" [OF nle h] have ih: "2 ^ (bit_length (n div 2) - 1) \<le> n div 2"
      "n div 2 < 2 ^ bit_length (n div 2)" by simp_all
    have b: "bit_length n = Suc (bit_length (n div 2))"
      using nle by (simp add: bit_length.simps [of n])
    have pos: "0 < bit_length (n div 2)"
      using h by (simp add: bit_length.simps [of "n div 2"])
    then have "(2::int) ^ bit_length (n div 2) = 2 * 2 ^ (bit_length (n div 2) - 1)"
      by (cases "bit_length (n div 2)") simp_all
    with ih show ?thesis
      unfolding b by (simp) linarith+
  qed
qed

lemma pow2_powi: "pow2 k = 2 powi k"
  by (simp add: pow2_def power_int_def field_simps)

lemma pow2_pos: "0 < pow2 k"
  by (simp add: pow2_powi)

lemma pow2_add: "pow2 (j + k) = pow2 j * pow2 k"
  by (simp add: pow2_powi power_int_add)

lemma pow2_nat: "pow2 (int n) = 2 ^ n"
  by (simp add: pow2_def)

lemma pow2_neg: "pow2 (- int n) = 1 / 2 ^ n"
  by (simp add: pow2_powi power_int_minus field_simps)

lemma exponent_le:
  assumes "0 < x"
  shows "pow2 (exponent x) \<le> x"
proof (cases "1 \<le> x")
  case True
  then have f: "0 < \<lfloor>x\<rfloor>" by simp
  then have "0 < bit_length \<lfloor>x\<rfloor>"
    by (simp add: bit_length.simps [of "\<lfloor>x\<rfloor>"])
  then have "exponent x = int (bit_length \<lfloor>x\<rfloor> - 1)"
    using True by (simp add: exponent_def)
  then have "pow2 (exponent x) = of_int (2 ^ (bit_length \<lfloor>x\<rfloor> - 1))"
    by (simp add: pow2_nat)
  also have "\<dots> \<le> of_int \<lfloor>x\<rfloor>"
    using bit_length_bounds [OF f] by (simp only: of_int_le_iff)
  also have "\<dots> \<le> x" by simp
  finally show ?thesis .
next
  case False
  with assms have "1 < 1 / x" by simp
  then have c: "0 < \<lceil>1 / x\<rceil> - 1"
    by (simp add: less_ceiling_iff)
  define j where "j = bit_length (\<lceil>1 / x\<rceil> - 1)"
  have "\<lceil>1 / x\<rceil> - 1 < 2 ^ j"
    using bit_length_bounds [OF c] by (simp add: j_def)
  then have "\<lceil>1 / x\<rceil> \<le> 2 ^ j" by simp
  then have "(of_int \<lceil>1 / x\<rceil> :: rat) \<le> of_int (2 ^ j)"
    by (simp only: of_int_le_iff)
  with le_of_int_ceiling [of "1 / x"] have "1 / x \<le> of_int (2 ^ j)"
    by (rule order_trans)
  then have "1 / x \<le> 2 ^ j" by simp
  with assms have "1 / 2 ^ j \<le> x"
    by (simp add: field_simps)
  moreover have "exponent x = - int j"
    using False by (simp add: exponent_def j_def)
  ultimately show ?thesis
    by (simp add: pow2_neg)
qed

lemma round_half_even_error: "\<bar>of_int (round_half_even m) - m\<bar> \<le> 1 / 2"
proof -
  have "of_int \<lfloor>m\<rfloor> \<le> m" "m < of_int \<lfloor>m\<rfloor> + 1" by linarith+
  then show ?thesis
    by (auto simp: round_half_even_def Let_def)
qed

lemma fl_error: "\<bar>fl x - x\<bar> \<le> unit_roundoff * \<bar>x\<bar>"
proof (cases "x = 0")
  case True
  then show ?thesis by (simp add: fl_def)
next
  case False
  define a where "a = \<bar>x\<bar>"
  define ulp where "ulp = pow2 (exponent a - 52)"
  define n where "n = round_half_even (a / ulp)"
  have a: "0 < a" using False by (simp add: a_def)
  have ulp: "0 < ulp" by (simp add: ulp_def pow2_pos)
  have f: "fl x = sgn x * (of_int n * ulp)"
    using False by (simp add: fl_def Let_def a_def ulp_def n_def)
  have x: "x = sgn x * a"
    by (simp add: a_def sgn_mult_abs)
  have "fl x - x = sgn x * (of_int n * ulp - a)"
    by (subst (2) x) (simp add: f algebra_simps)
  then have "\<bar>fl x - x\<bar> = \<bar>of_int n * ulp - a\<bar>"
    using False by (simp add: abs_mult)
  also have "of_int n * ulp - a = (of_int n - a / ulp) * ulp"
    using ulp by (simp add: field_simps)
  also have "\<bar>\<dots>\<bar> = \<bar>of_int n - a / ulp\<bar> * ulp"
    using ulp by (simp add: abs_mult)
  also have "\<dots> \<le> 1 / 2 * ulp"
    using round_half_even_error [of "a / ulp"] ulp
    by (intro mult_right_mono) (simp_all add: n_def)
  also have "1 / 2 * ulp = unit_roundoff * pow2 (exponent a)"
    using pow2_add [of "exponent a" "- 52"]
    by (simp add: ulp_def unit_roundoff_def pow2_def)
  also have "\<dots> \<le> unit_roundoff * a"
    using exponent_le [OF a] by (intro mult_left_mono) (simp_all add: unit_roundoff_def)
  finally show ?thesis by (simp add: a_def)
qed

lemma fl_zero: "fl 0 = 0"
  by (simp add: fl_def)

lemma fl_pos: "0 < x \<Longrightarrow> 0 < fl x"
  using fl_error [of x] by (simp add: unit_roundoff_def abs_if split: if_splits)

lemma fl_neg: "x < 0 \<Longrightarrow> fl x < 0"
  using fl_error [of x] by (simp add: unit_roundoff_def abs_if split: if_splits)

lemma fl_eq_0_iff: "fl x = 0 \<longleftrightarrow> x = 0"
  using fl_pos [of x] fl_neg [of x] fl_zero by (cases "x = 0") (auto simp: neq_iff)

lemma exponent_less:
  assumes "0 < x"
  shows "x < pow2 (exponent x + 1)"
proof (cases "1 \<le> x")
  case True
  then have f: "0 < \<lfloor>x\<rfloor>" by simp
  then have b: "0 < bit_length \<lfloor>x\<rfloor>"
    by (simp add: bit_length.simps [of "\<lfloor>x\<rfloor>"])
  have "\<lfloor>x\<rfloor> + 1 \<le> 2 ^ bit_length \<lfloor>x\<rfloor>"
    using bit_length_bounds [OF f] by simp
  then have "(of_int (\<lfloor>x\<rfloor> + 1) :: rat) \<le> of_int (2 ^ bit_length \<lfloor>x\<rfloor>)"
    by (simp only: of_int_le_iff)
  moreover have "x < of_int (\<lfloor>x\<rfloor> + 1)" by linarith
  ultimately have "x < 2 ^ bit_length \<lfloor>x\<rfloor>" by simp
  moreover have "exponent x + 1 = int (bit_length \<lfloor>x\<rfloor>)"
    using True by (simp add: exponent_def)
  ultimately show ?thesis
    by (simp add: pow2_nat)
next
  case False
  with assms have "1 < 1 / x" by simp
  then have c: "0 < \<lceil>1 / x\<rceil> - 1"
    by (simp add: less_ceiling_iff)
  define j where "j = bit_length (\<lceil>1 / x\<rceil> - 1)"
  have j: "0 < j"
    using c by (simp add: j_def bit_length.simps [of "\<lceil>1 / x\<rceil> - 1"])
  have "2 ^ (j - 1) \<le> \<lceil>1 / x\<rceil> - 1"
    using bit_length_bounds [OF c] by (simp add: j_def)
  then have "(of_int (2 ^ (j - 1)) :: rat) \<le> of_int (\<lceil>1 / x\<rceil> - 1)"
    by (simp only: of_int_le_iff)
  moreover have "of_int (\<lceil>1 / x\<rceil> - 1) < 1 / x"
    by (simp add: ceiling_correct)
  ultimately have "2 ^ (j - 1) < 1 / x" by simp
  with assms have "x < 1 / 2 ^ (j - 1)"
    by (simp add: field_simps)
  moreover have "exponent x + 1 = - int (j - 1)"
    using False j by (simp add: exponent_def j_def)
  ultimately show ?thesis
    by (simp only: pow2_neg)
qed

lemma unit_roundoff_small: "0 \<le> unit_roundoff" "of_nat k * unit_roundoff \<le> 1 / 2" if "k \<le> 100"
proof -
  show "0 \<le> unit_roundoff" by (simp add: unit_roundoff_def)
  have "(of_nat k :: rat) \<le> 100" using that by simp
  then have "of_nat k * unit_roundoff \<le> 100 * unit_roundoff"
    by (intro mult_right_mono) (simp_all add: unit_roundoff_def)
  also have "\<dots> \<le> 1 / 2" by (simp add: unit_roundoff_def)
  finally show "of_nat k * unit_roundoff \<le> 1 / 2" .
qed

lemma close_to_fl0: "close_to 1 (fl x) x"
  using fl_error [of x] by (simp add: close_to_def)

lemma close_to_fl:
  assumes "close_to k y x" and "k \<le> 100"
  shows "close_to (k + 2) (fl y) x"
proof -
  define U where "U = unit_roundoff"
  define K :: rat where "K = of_nat k"
  have U: "0 \<le> U" and KU: "K * U \<le> 1 / 2"
    using unit_roundoff_small [OF assms(2)] by (simp_all add: U_def K_def)
  have K: "0 \<le> K" by (simp add: K_def)
  have a: "\<bar>y - x\<bar> \<le> K * U * \<bar>x\<bar>"
    using assms(1) by (simp add: close_to_def U_def K_def)
  have "K * U * \<bar>x\<bar> \<le> 1 * \<bar>x\<bar>"
    using KU by (intro mult_right_mono) simp_all
  with a have "\<bar>y\<bar> \<le> 2 * \<bar>x\<bar>" by linarith
  then have "U * \<bar>y\<bar> \<le> U * (2 * \<bar>x\<bar>)"
    using U by (rule mult_left_mono)
  moreover have "\<bar>fl y - y\<bar> \<le> U * \<bar>y\<bar>"
    using fl_error [of y] by (simp add: U_def)
  ultimately have "\<bar>fl y - x\<bar> \<le> U * (2 * \<bar>x\<bar>) + K * U * \<bar>x\<bar>"
    using a by linarith
  also have "\<dots> = of_nat (k + 2) * U * \<bar>x\<bar>"
    by (simp add: K_def algebra_simps)
  finally show ?thesis
    by (simp add: close_to_def U_def)
qed

lemma close_to_divide:
  assumes "close_to k y x"
  shows "close_to k (y / c) (x / c)"
proof (cases "c = 0")
  case True
  then show ?thesis by (simp add: close_to_def)
next
  case False
  have "y / c - x / c = (y - x) / c"
    by (simp add: diff_divide_distrib)
  then have "\<bar>y / c - x / c\<bar> = \<bar>y - x\<bar> / \<bar>c\<bar>"
    by simp
  also have "\<dots> \<le> (of_nat k * unit_roundoff * \<bar>x\<bar>) / \<bar>c\<bar>"
    using assms by (intro divide_right_mono) (simp_all add: close_to_def)
  finally show ?thesis
    by (simp add: close_to_def)
qed

lemma close_to_times:
  assumes "close_to k y x"
  shows "close_to k (y * c) (x * c)"
proof -
  have "y * c - x * c = (y - x) * c"
    by (simp add: algebra_simps)
  then have "\<bar>y * c - x * c\<bar> = \<bar>y - x\<bar> * \<bar>c\<bar>"
    by (simp add: abs_mult)
  also have "\<dots> \<le> (of_nat k * unit_roundoff * \<bar>x\<bar>) * \<bar>c\<bar>"
    using assms by (intro mult_right_mono) (simp_all add: close_to_def)
  finally show ?thesis
    by (simp add: close_to_def abs_mult algebra_simps)
qed

lemma close_to_quotient:
  assumes y: "close_to j y x" and w: "close_to k w z" and z: "z \<noteq> 0" and k: "k \<le> 100"
  shows "close_to (2 * (j + k)) (y / w) (x / z)"
proof -
  define U where "U = unit_roundoff"
  define J :: rat where "J = of_nat j"
  define K :: rat where "K = of_nat k"
  have U: "0 \<le> U" and KU: "K * U \<le> 1 / 2"
    using unit_roundoff_small [OF k] by (simp_all add: U_def K_def)
  have J: "0 \<le> J" and K: "0 \<le> K" by (simp_all add: J_def K_def)
  have a: "\<bar>y - x\<bar> \<le> J * U * \<bar>x\<bar>"
    using y by (simp add: close_to_def U_def J_def)
  have b: "\<bar>w - z\<bar> \<le> K * U * \<bar>z\<bar>"
    using w by (simp add: close_to_def U_def K_def)
  have "K * U * \<bar>z\<bar> \<le> 1 / 2 * \<bar>z\<bar>"
    using KU by (intro mult_right_mono) simp_all
  with b have wl: "\<bar>z\<bar> / 2 \<le> \<bar>w\<bar>" by linarith
  with z have w0: "w \<noteq> 0" by auto
  have zp: "0 < \<bar>z\<bar>" and wp: "0 < \<bar>w\<bar>" using z w0 by simp_all
  have "y / w - x / z = ((y - x) * z - x * (w - z)) / (w * z)"
    using z w0 by (simp add: field_simps)
  then have "\<bar>y / w - x / z\<bar> = \<bar>(y - x) * z - x * (w - z)\<bar> / (\<bar>w\<bar> * \<bar>z\<bar>)"
    by (simp add: abs_mult)
  also have "\<bar>(y - x) * z - x * (w - z)\<bar> \<le> \<bar>y - x\<bar> * \<bar>z\<bar> + \<bar>x\<bar> * \<bar>w - z\<bar>"
    using abs_triangle_ineq4 [of "(y - x) * z" "x * (w - z)"] by (simp add: abs_mult)
  also have "\<dots> \<le> (J * U * \<bar>x\<bar>) * \<bar>z\<bar> + \<bar>x\<bar> * (K * U * \<bar>z\<bar>)"
    using a b by (intro add_mono mult_right_mono mult_left_mono) simp_all
  also have "\<dots> = (J + K) * U * \<bar>x\<bar> * \<bar>z\<bar>"
    by (simp add: algebra_simps)
  finally have "\<bar>y / w - x / z\<bar> \<le> ((J + K) * U * \<bar>x\<bar> * \<bar>z\<bar>) / (\<bar>w\<bar> * \<bar>z\<bar>)"
    using wp zp by (simp add: divide_right_mono)
  also have "\<dots> = ((J + K) * U * \<bar>x\<bar>) / \<bar>w\<bar>"
    using zp by simp
  also have "\<dots> \<le> ((J + K) * U * \<bar>x\<bar>) / (\<bar>z\<bar> / 2)"
    using wl zp J K U by (intro divide_left_mono) (simp_all add: mult_nonneg_nonneg)
  also have "\<dots> = of_nat (2 * (j + k)) * U * \<bar>x / z\<bar>"
    by (simp add: J_def K_def algebra_simps add_divide_distrib)
  finally show ?thesis
    by (simp add: close_to_def U_def)
qed

lemma close_to_sign:
  assumes "close_to k y x" and "k \<le> 100"
  shows "(0 < x \<longrightarrow> 0 < y) \<and> (x < 0 \<longrightarrow> y < 0) \<and> (x = 0 \<longrightarrow> y = 0)"
proof -
  have "of_nat k * unit_roundoff * \<bar>x\<bar> \<le> 1 / 2 * \<bar>x\<bar>"
    using unit_roundoff_small [OF assms(2)] by (intro mult_right_mono) simp_all
  with assms(1) have "\<bar>y - x\<bar> \<le> 1 / 2 * \<bar>x\<bar>"
    by (simp add: close_to_def)
  then show ?thesis by (auto simp: abs_if split: if_splits)
qed

section \<open>Properties of the goal projections\<close>

lemma Math_max_Num: "Math_max (Num a) (Num b) = Num (max a b)"
  by (simp add: Math_max_def max_def)

lemma Math_min_Num: "Math_min (Num a) (Num b) = Num (min a b)"
  by (simp add: Math_min_def min_def)

lemma MS_PER_DAY_pos: "(0::rat) < of_int MS_PER_DAY"
  by (simp add: MS_PER_DAY_def)

text \<open>The days computed from a difference of time values: two roundings.\<close>

lemma days_close: "close_to 3 (fl (fl d / of_int MS_PER_DAY)) (d / of_int MS_PER_DAY)"
proof -
  have n: "1 + 2 = (3::nat)" by simp
  have "close_to 1 (fl d / of_int MS_PER_DAY) (d / of_int MS_PER_DAY)"
    using close_to_fl0 by (rule close_to_divide)
  then have "close_to (1 + 2) (fl (fl d / of_int MS_PER_DAY)) (d / of_int MS_PER_DAY)"
    by (rule close_to_fl) simp
  then show ?thesis unfolding n .
qed

lemma days_sign:
  "(0 < d \<longrightarrow> 0 < fl (fl d / of_int MS_PER_DAY))
   \<and> (d < 0 \<longrightarrow> fl (fl d / of_int MS_PER_DAY) < 0)
   \<and> (d = 0 \<longrightarrow> fl (fl d / of_int MS_PER_DAY) = 0)"
  using close_to_sign [OF days_close [of d]] MS_PER_DAY_pos
  by (simp add: zero_less_divide_iff divide_less_0_iff)

text \<open>The percentage before the clamp: six roundings in all.\<close>

lemma percentage_close:
  assumes "t \<noteq> 0"
  shows "close_to 16
           (fl (fl (fl (fl a / of_int MS_PER_DAY) / fl (fl t / of_int MS_PER_DAY)) * 100))
           (a / t * 100)"
proof -
  let ?M = "of_int MS_PER_DAY :: rat"
  let ?q = "fl (fl a / ?M) / fl (fl t / ?M)"
  have M: "?M \<noteq> 0" using MS_PER_DAY_pos by simp
  with assms have tM: "t / ?M \<noteq> 0" by simp
  have e: "(a / ?M) / (t / ?M) = a / t"
    using M by simp
  have n: "2 * (3 + 3) + 2 = (14::nat)" "14 + 2 = (16::nat)" by simp_all
  have "close_to (2 * (3 + 3)) ?q ((a / ?M) / (t / ?M))"
    by (rule close_to_quotient [OF days_close days_close tM]) simp
  then have "close_to (2 * (3 + 3)) ?q (a / t)"
    unfolding e .
  then have "close_to (2 * (3 + 3) + 2) (fl ?q) (a / t)"
    by (rule close_to_fl) simp
  then have "close_to 14 (fl ?q) (a / t)"
    unfolding n .
  then have "close_to 14 (fl ?q * 100) (a / t * 100)"
    by (rule close_to_times)
  then have "close_to (14 + 2) (fl (fl ?q * 100)) (a / t * 100)"
    by (rule close_to_fl) simp
  then show ?thesis
    unfolding n .
qed

lemma getGoalProgress_nonzero_total:
  assumes "\<not> is_completed goal" "target_date goal = Some td"
    and "Date_parse td \<noteq> Goal.created_at goal"
  shows "getGoalProgress now goal =
           Num (min 100 (max 0
             (fl (fl (fl (fl (of_int now - of_int (Goal.created_at goal)) / of_int MS_PER_DAY)
                      / fl (fl (of_int (Date_parse td) - of_int (Goal.created_at goal))
                              / of_int MS_PER_DAY)) * 100))))"
proof -
  have "(of_int (Date_parse td) - of_int (Goal.created_at goal) :: rat) \<noteq> 0"
    using assms(3) by simp
  with days_sign [of "of_int (Date_parse td) - of_int (Goal.created_at goal)"]
  have "fl (fl (of_int (Date_parse td) - of_int (Goal.created_at goal)) / of_int MS_PER_DAY) \<noteq> 0"
    by (auto simp: neq_iff)
  with assms(1,2) show ?thesis
    by (simp add: getGoalProgress_def Let_def js_div_def Math_max_Num Math_min_Num)
qed

lemma spec_percentage_eq:
  "spec_percentage created target today =
     spec_clamp ((of_int today - of_int created) / (of_int target - of_int created) * 100) 0 100"
proof -
  have c: "(x / c) / (y / c) = x / y" if "c \<noteq> 0" for x y c :: rat
    using that by simp
  have "(86400000 :: rat) \<noteq> 0" by simp
  then have "(of_int (today - created) / 86400000) / (of_int (target - created) / 86400000 :: rat)
          = of_int (today - created) / of_int (target - created)"
    by (rule c)
  then show ?thesis
    by (simp only: spec_percentage_def days_between_def of_int_diff)
qed

lemma clamp_close:
  assumes "close_to 16 p e"
  shows "\<bar>min 100 (max 0 p) - spec_clamp e 0 100\<bar> \<le> 1 / 2 ^ 42"
proof -
  have s: "(0 < e \<longrightarrow> 0 < p) \<and> (e < 0 \<longrightarrow> p < 0) \<and> (e = 0 \<longrightarrow> p = 0)"
    by (rule close_to_sign [OF assms]) simp
  have d: "\<bar>p - e\<bar> \<le> 16 * unit_roundoff * \<bar>e\<bar>"
    using assms by (simp add: close_to_def)
  consider "e < 0" | "0 \<le> e" "e \<le> 100" | "100 < e" by linarith
  then show ?thesis
  proof cases
    case 1
    with s show ?thesis
      by (simp add: spec_clamp_def max_def min_def)
  next
    case 2
    then have "16 * unit_roundoff * \<bar>e\<bar> \<le> 16 * unit_roundoff * 100"
      by (intro mult_left_mono) (simp_all add: unit_roundoff_def)
    also have "\<dots> \<le> 1 / 2 ^ 42"
      by (simp add: unit_roundoff_def)
    finally have "\<bar>p - e\<bar> \<le> 1 / 2 ^ 42"
      using d by linarith
    with 2 show ?thesis
      by (auto simp: spec_clamp_def max_def min_def abs_if split: if_splits)
  next
    case 3
    then have "p - e \<ge> - (16 * unit_roundoff * e)"
      using d by (simp add: abs_if split: if_splits)
    then have "p \<ge> e * (1 - 16 * unit_roundoff)"
      by (simp add: algebra_simps)
    moreover have "100 * (1 - 16 * unit_roundoff) \<le> e * (1 - 16 * unit_roundoff)"
      using 3 by (intro mult_right_mono) (simp_all add: unit_roundoff_def)
    moreover have "100 - 1 / 2 ^ 42 \<le> 100 * (1 - 16 * unit_roundoff)"
      by (simp add: unit_roundoff_def)
    ultimately have "100 - 1 / 2 ^ 42 \<le> p" by linarith
    with 3 show ?thesis
      by (auto simp: spec_clamp_def max_def min_def abs_if split: if_splits)
  qed
qed

lemma getGoalProgress_close:
  assumes "\<not> is_completed goal" "target_date goal = Some td"
    and "Date_parse td \<noteq> Goal.created_at goal"
  shows "\<exists>p. getGoalProgress now goal = Num p \<and> 0 \<le> p \<and> p \<le> 100
             \<and> \<bar>p - spec_percentage (Goal.created_at goal) (Date_parse td) now\<bar> \<le> 1 / 2 ^ 42"
proof -
  define q where
    "q = fl (fl (fl (fl (of_int now - of_int (Goal.created_at goal)) / of_int MS_PER_DAY)
                 / fl (fl (of_int (Date_parse td) - of_int (Goal.created_at goal))
                         / of_int MS_PER_DAY)) * 100)"
  have g: "getGoalProgress now goal = Num (min 100 (max 0 q))"
    unfolding q_def by (rule getGoalProgress_nonzero_total [OF assms])
  have "(of_int (Date_parse td) - of_int (Goal.created_at goal) :: rat) \<noteq> 0"
    using assms(3) by simp
  then have "close_to 16 q ((of_int now - of_int (Goal.created_at goal))
                / (of_int (Date_parse td) - of_int (Goal.created_at goal)) * 100)"
    unfolding q_def by (rule percentage_close)
  then have "\<bar>min 100 (max 0 q) - spec_percentage (Goal.created_at goal) (Date_parse td) now\<bar>
               \<le> 1 / 2 ^ 42"
    unfolding spec_percentage_eq by (rule clamp_close)
  with g show ?thesis by simp
qed

lemma half_way: "getGoalProgress (5 * MS_PER_DAY) goal_ten_days = Num 50"
  by code_simp

lemma past_target: "getGoalProgress (15 * MS_PER_DAY) goal_ten_days = Num 100"
  by code_simp

lemma eleven_of_twenty:
  "getGoalProgress (11 * MS_PER_DAY) goal_twenty_days = Num (55 + 1 / 2 ^ 47)"
  by code_simp

lemma twenty_three_of_forty:
  "getGoalProgress (23 * MS_PER_DAY) goal_forty_days = Num (115 / 2 - 1 / 2 ^ 47)"
  by code_simp

text \<open>
  Claim C4, as the code has it. \<^verbatim>\<open>getGoalProgress\<close> returns 100 for a completed goal and
  0 for a goal without a target date. Otherwise, when the total is not zero, it returns
  the quotient of the elapsed days by the total days, times 100, clamped to the range
  from 0 to 100, as double arithmetic computes it: a number between 0 and 100 within
  \<open>2 ^ - 42\<close> of the exact clamped percentage. A goal created at day 0 and due on day 10
  is at exactly 50 on day 5 and at exactly 100 on day 15.
\<close>

theorem getGoalProgress_rounded:
  "(is_completed goal \<longrightarrow> getGoalProgress now goal = Num 100)
   \<and> (\<not> is_completed goal \<and> target_date goal = None \<longrightarrow> getGoalProgress now goal = Num 0)
   \<and> (\<not> is_completed goal \<and> target_date goal = Some td
        \<and> Date_parse td \<noteq> Goal.created_at goal \<longrightarrow>
      (\<exists>p. getGoalProgress now goal = Num p \<and> 0 \<le> p \<and> p \<le> 100
           \<and> \<bar>p - spec_percentage (Goal.created_at goal) (Date_parse td) now\<bar> \<le> 1 / 2 ^ 42))
   \<and> getGoalProgress (5 * MS_PER_DAY) goal_ten_days = Num 50
   \<and> getGoalProgress (15 * MS_PER_DAY) goal_ten_days = Num 100"
proof (intro conjI impI)
  show "getGoalProgress now goal = Num 100" if "is_completed goal"
    using that by (simp add: getGoalProgress_def)
  show "getGoalProgress now goal = Num 0" if "\<not> is_completed goal \<and> target_date goal = None"
    using that by (simp add: getGoalProgress_def)
  show "\<exists>p. getGoalProgress now goal = Num p \<and> 0 \<le> p \<and> p \<le> 100
           \<and> \<bar>p - spec_percentage (Goal.created_at goal) (Date_parse td) now\<bar> \<le> 1 / 2 ^ 42"
    if "\<not> is_completed goal \<and> target_date goal = Some td
        \<and> Date_parse td \<noteq> Goal.created_at goal"
    using that getGoalProgress_close by blast
qed (rule half_way past_target)+

text \<open>
  A completed goal, a goal without a target date, and the goal due on day 20 on day 11,
  where the exact percentage is 55.
\<close>

theorem getGoalProgress_rounded_witness:
  "is_completed goal_done \<and> getGoalProgress 1705330800000 goal_done = Num 100
   \<and> \<not> is_completed goal_open \<and> target_date goal_open = None
   \<and> getGoalProgress 1705330800000 goal_open = Num 0
   \<and> \<not> is_completed goal_twenty_days \<and> target_date goal_twenty_days = Some 20
   \<and> Date_parse 20 \<noteq> Goal.created_at goal_twenty_days
   \<and> (\<exists>p. getGoalProgress (11 * MS_PER_DAY) goal_twenty_days = Num p \<and> 0 \<le> p \<and> p \<le> 100
          \<and> \<bar>p - 55\<bar> \<le> 1 / 2 ^ 42)"
proof -
  have d: "is_completed goal_done"
    by (simp add: goal_done_def)
  have o: "\<not> is_completed goal_open \<and> target_date goal_open = None"
    by (simp add: goal_open_def)
  have t: "\<not> is_completed goal_twenty_days \<and> target_date goal_twenty_days = Some 20
             \<and> Date_parse 20 \<noteq> Goal.created_at goal_twenty_days"
    by (simp add: goal_twenty_days_def Date_parse_def MS_PER_DAY_def)
  have s: "spec_percentage (Goal.created_at goal_twenty_days) (Date_parse 20) (11 * MS_PER_DAY) = 55"
    by (simp add: spec_percentage_def spec_clamp_def days_between_def goal_twenty_days_def
        Date_parse_def MS_PER_DAY_def)
  from getGoalProgress_rounded [of goal_done 1705330800000] d
  have 1: "getGoalProgress 1705330800000 goal_done = Num 100" by blast
  from getGoalProgress_rounded [of goal_open 1705330800000] o
  have 2: "getGoalProgress 1705330800000 goal_open = Num 0" by blast
  from getGoalProgress_rounded [of goal_twenty_days "11 * MS_PER_DAY" 20] t
  have "\<exists>p. getGoalProgress (11 * MS_PER_DAY) goal_twenty_days = Num p \<and> 0 \<le> p \<and> p \<le> 100
          \<and> \<bar>p - spec_percentage (Goal.created_at goal_twenty_days) (Date_parse 20)
                   (11 * MS_PER_DAY)\<bar> \<le> 1 / 2 ^ 42"
    by blast
  then have 3: "\<exists>p. getGoalProgress (11 * MS_PER_DAY) goal_twenty_days = Num p \<and> 0 \<le> p
          \<and> p \<le> 100 \<and> \<bar>p - 55\<bar> \<le> 1 / 2 ^ 42"
    unfolding s .
  from d o t 1 2 3 show ?thesis by blast
qed

text \<open>
  Claim C4 as stated fails: for the goal created at day 0 and due on day 20 the exact
  clamped percentage on day 11 is 55 and the code returns the next double above 55
  (printed 55.00000000000001); for the goal due on day 40 the exact percentage on day 23
  is 57.5 and the code returns the next double below it (printed 57.49999999999999).
\<close>

theorem exact_percentage_counterexample:
  "\<not> is_completed goal_twenty_days \<and> target_date goal_twenty_days = Some 20
   \<and> spec_percentage (Goal.created_at goal_twenty_days) (Date_parse 20) (11 * MS_PER_DAY) = 55
   \<and> getGoalProgress (11 * MS_PER_DAY) goal_twenty_days = Num (55 + 1 / 2 ^ 47)
   \<and> \<not> is_completed goal_forty_days \<and> target_date goal_forty_days = Some 40
   \<and> spec_percentage (Goal.created_at goal_forty_days) (Date_parse 40) (23 * MS_PER_DAY)
       = 115 / 2
   \<and> getGoalProgress (23 * MS_PER_DAY) goal_forty_days = Num (115 / 2 - 1 / 2 ^ 47)"
proof -
  have "spec_percentage (Goal.created_at goal_twenty_days) (Date_parse 20) (11 * MS_PER_DAY) = 55"
    by (simp add: spec_percentage_def spec_clamp_def days_between_def goal_twenty_days_def
        Date_parse_def MS_PER_DAY_def)
  moreover
  have "spec_percentage (Goal.created_at goal_forty_days) (Date_parse 40) (23 * MS_PER_DAY)
          = 115 / 2"
    by (simp add: spec_percentage_def spec_clamp_def days_between_def goal_forty_days_def
        Date_parse_def MS_PER_DAY_def)
  ultimately show ?thesis
    using eleven_of_twenty twenty_three_of_forty
    by (simp add: goal_twenty_days_def goal_forty_days_def)
qed

lemma getGoalProgress_zero_total:
  assumes "\<not> is_completed goal" "target_date goal = Some td"
    and "Date_parse td = Goal.created_at goal" "Goal.created_at goal < now"
  shows "getGoalProgress now goal = Num 100"
proof -
  have "(0::rat) < of_int now - of_int (Goal.created_at goal)"
    using assms(4) by simp
  with days_sign [of "of_int now - of_int (Goal.created_at goal)"]
  have "0 < fl (fl (of_int now - of_int (Goal.created_at goal)) / of_int MS_PER_DAY)"
    by blast
  with assms(1,2,3) show ?thesis
    by (simp add: getGoalProgress_def Let_def js_div_def fl_zero Math_max_def Math_min_def)
qed

lemma getGoalProgress_negative_total:
  assumes "\<not> is_completed goal" "target_date goal = Some td"
    and "Date_parse td < Goal.created_at goal" "Goal.created_at goal \<le> now"
  shows "getGoalProgress now goal = Num 0"
proof -
  define e :: rat where "e = of_int now - of_int (Goal.created_at goal)"
  define t :: rat where "t = of_int (Date_parse td) - of_int (Goal.created_at goal)"
  define q where
    "q = fl (fl (fl (fl e / of_int MS_PER_DAY) / fl (fl t / of_int MS_PER_DAY)) * 100)"
  have t: "t < 0" and e: "0 \<le> e"
    using assms(3,4) by (simp_all add: e_def t_def)
  then have "e / t \<le> 0"
    by (simp add: divide_nonneg_neg)
  then have le: "e / t * 100 \<le> 0"
    by (rule mult_nonpos_nonneg) simp
  from t have "close_to 16 q (e / t * 100)"
    unfolding q_def by (intro percentage_close) simp
  from close_to_sign [OF this] le have "q \<le> 0"
    by (cases "e / t * 100 = 0") auto
  then have clamp: "min 100 (max 0 q) = 0"
    by (simp add: max_def min_def)
  have "Date_parse td \<noteq> Goal.created_at goal"
    using assms(3) by simp
  from getGoalProgress_nonzero_total [OF assms(1,2) this, of now]
  have "getGoalProgress now goal = Num (min 100 (max 0 q))"
    by (simp only: q_def e_def t_def)
  with clamp show ?thesis
    by (simp only:)
qed

text \<open>
  Claim C3, as the code has it. There is no guard on the divisor. For a goal that is not
  completed, a total of zero with time elapsed gives 100 (the quotient is plus infinity
  and the clamp brings it to 100), and a negative total with no negative elapsed time
  gives 0 (the quotient is at most zero).
\<close>

theorem getGoalProgress_nonpositive_total:
  assumes "\<not> is_completed goal" and "target_date goal = Some td"
  shows "(Date_parse td = Goal.created_at goal \<and> Goal.created_at goal < now
            \<longrightarrow> getGoalProgress now goal = Num 100)
       \<and> (Date_parse td < Goal.created_at goal \<and> Goal.created_at goal \<le> now
            \<longrightarrow> getGoalProgress now goal = Num 0)"
  using getGoalProgress_zero_total [OF assms] getGoalProgress_negative_total [OF assms]
  by blast

text \<open>Both cases on day 12, for the goals created at midnight and at noon of their target day.\<close>

theorem getGoalProgress_nonpositive_total_witness:
  "getGoalProgress (12 * MS_PER_DAY) goal_same_instant = Num 100
   \<and> getGoalProgress (12 * MS_PER_DAY) goal_late = Num 0"
proof
  have "\<not> is_completed goal_same_instant" "target_date goal_same_instant = Some 10"
    by (simp_all add: goal_same_instant_def)
  from getGoalProgress_nonpositive_total [OF this, of "12 * MS_PER_DAY"]
  show "getGoalProgress (12 * MS_PER_DAY) goal_same_instant = Num 100"
    by (simp add: goal_same_instant_def Date_parse_def MS_PER_DAY_def)
  have "\<not> is_completed goal_late" "target_date goal_late = Some 10"
    by (simp_all add: goal_late_def)
  from getGoalProgress_nonpositive_total [OF this, of "12 * MS_PER_DAY"]
  show "getGoalProgress (12 * MS_PER_DAY) goal_late = Num 0"
    by (simp add: goal_late_def Date_parse_def MS_PER_DAY_def)
qed

text \<open>
  Claim C3 as stated fails: a goal created at noon of its target day has a negative
  total and, on day 12, a positive elapsed time, and its progress is 0, not 100. For a
  goal created at midnight of its target day the progress at that instant is NaN.
\<close>

theorem guarded_total_counterexample:
  "target_date goal_late = Some 10
   \<and> Date_parse 10 - Goal.created_at goal_late \<le> 0
   \<and> 0 \<le> 12 * MS_PER_DAY - Goal.created_at goal_late
   \<and> getGoalProgress (12 * MS_PER_DAY) goal_late = Num 0
   \<and> target_date goal_same_instant = Some 10
   \<and> Date_parse 10 - Goal.created_at goal_same_instant = 0
   \<and> getGoalProgress (Goal.created_at goal_same_instant) goal_same_instant = NaN"
proof -
  have "getGoalProgress (12 * MS_PER_DAY) goal_late = Num 0"
    by (rule getGoalProgress_negative_total [where td = 10])
      (simp_all add: goal_late_def Date_parse_def MS_PER_DAY_def)
  moreover
  have "getGoalProgress (Goal.created_at goal_same_instant) goal_same_instant = NaN"
    by (simp add: getGoalProgress_def goal_same_instant_def Let_def Date_parse_def
        MS_PER_DAY_def js_div_def fl_zero Math_min_def Math_max_def)
  ultimately show ?thesis
    by (simp add: goal_late_def goal_same_instant_def Date_parse_def MS_PER_DAY_def)
qed

lemma ceiling_days:
  assumes "(d - 1) * MS_PER_DAY < a" and "a \<le> d * MS_PER_DAY"
  shows "\<lceil>(of_int a :: rat) / of_int MS_PER_DAY\<rceil> = d"
proof (rule ceiling_unique)
  have pos: "(0::rat) < of_int MS_PER_DAY"
    by (simp add: MS_PER_DAY_def)
  have "(of_int ((d - 1) * MS_PER_DAY) :: rat) < of_int a"
    using assms(1) by (simp only: of_int_less_iff)
  then show "of_int d - 1 < (of_int a :: rat) / of_int MS_PER_DAY"
    using pos by (simp add: pos_less_divide_eq)
  have "(of_int a :: rat) \<le> of_int (d * MS_PER_DAY)"
    using assms(2) by (simp only: of_int_le_iff)
  then show "(of_int a :: rat) / of_int MS_PER_DAY \<le> of_int d"
    using pos by (simp add: pos_divide_le_eq)
qed

lemma utc_day_bounds:
  "toISODate now * MS_PER_DAY \<le> now \<and> now < (toISODate now + 1) * MS_PER_DAY"
proof -
  have pos: "0 < MS_PER_DAY" by (simp add: MS_PER_DAY_def)
  have "now = toISODate now * MS_PER_DAY + now mod MS_PER_DAY"
    by (simp add: toISODate_def)
  moreover have "0 \<le> now mod MS_PER_DAY" "now mod MS_PER_DAY < MS_PER_DAY"
    using pos by simp_all
  ultimately show ?thesis
    by (auto simp: algebra_simps)
qed

lemma days_until_utc:
  "\<lceil>(of_int (Date_parse (toISODate now + k) - now) :: rat) / of_int MS_PER_DAY\<rceil> = k"
proof (rule ceiling_days)
  from utc_day_bounds [of now]
  show "(k - 1) * MS_PER_DAY < Date_parse (toISODate now + k) - now"
    by (simp add: Date_parse_def algebra_simps)
  from utc_day_bounds [of now]
  show "Date_parse (toISODate now + k) - now \<le> k * MS_PER_DAY"
    by (simp add: Date_parse_def algebra_simps)
qed

lemma decimal_3: "Number_toString 3 = ''3''"
  by (simp add: Number_toString_def decimal.simps digit_def)

text \<open>
  Claim C7. The status of a target date is computed from the days until the target, the
  ceiling of the difference between midnight UTC of the target day and the current
  instant in days: overdue by the absolute value when negative, due today at zero, one
  day left at one, and that many days left otherwise. A target on the current UTC day is
  due today, one on the next day has 1 day left, one three days back is 3 days overdue.
\<close>

theorem getDaysUntilTarget_status:
  "getDaysUntilTarget now td =
     (let d = \<lceil>(of_int (Date_parse td - now) :: rat) / of_int MS_PER_DAY\<rceil>
      in if d < 0 then Number_toString (- d) @ '' days overdue''
         else if d = 0 then ''Due today''
         else if d = 1 then ''1 day left''
         else Number_toString d @ '' days left'')
   \<and> getDaysUntilTarget now (toISODate now) = ''Due today''
   \<and> getDaysUntilTarget now (toISODate now + 1) = ''1 day left''
   \<and> getDaysUntilTarget now (toISODate now - 3) = ''3 days overdue''"
proof (intro conjI)
  show "getDaysUntilTarget now td =
     (let d = \<lceil>(of_int (Date_parse td - now) :: rat) / of_int MS_PER_DAY\<rceil>
      in if d < 0 then Number_toString (- d) @ '' days overdue''
         else if d = 0 then ''Due today''
         else if d = 1 then ''1 day left''
         else Number_toString d @ '' days left'')"
    by (simp add: getDaysUntilTarget_def Let_def)
  have c0: "\<lceil>(of_int (Date_parse (toISODate now) - now) :: rat) / of_int MS_PER_DAY\<rceil> = 0"
    using days_until_utc [of now 0] by (simp only: add_0_right)
  show "getDaysUntilTarget now (toISODate now) = ''Due today''"
    unfolding getDaysUntilTarget_def Let_def c0 by simp
  show "getDaysUntilTarget now (toISODate now + 1) = ''1 day left''"
    unfolding getDaysUntilTarget_def Let_def days_until_utc by simp
  have c3: "\<lceil>(of_int (Date_parse (toISODate now - 3) - now) :: rat) / of_int MS_PER_DAY\<rceil> = - 3"
    using days_until_utc [of now "- 3"] by (simp only: add_uminus_conv_diff)
  show "getDaysUntilTarget now (toISODate now - 3) = ''3 days overdue''"
    unfolding getDaysUntilTarget_def Let_def c3 by (simp add: decimal_3)
qed

section \<open>Properties of the streak\<close>

declare streak_loop.simps [simp del]

lemma toDateString_setDate_back:
  "toDateString tzo (setDate_back now i) = toDateString tzo now - int i"
proof -
  have "MS_PER_DAY \<noteq> 0"
    by (simp add: MS_PER_DAY_def)
  then have "(now - tzo * 60000 + (- int i) * MS_PER_DAY) div MS_PER_DAY
          = - int i + (now - tzo * 60000) div MS_PER_DAY"
    by (rule div_mult_self1)
  then show ?thesis
    by (simp add: toDateString_def setDate_back_def algebra_simps)
qed

lemma streak_loop_prefix:
  "i \<le> length xs \<Longrightarrow>
   streak_loop tzo now xs i s =
     s + unbroken_prefix (toDateString tzo now - int i)
           (map (\<lambda>c. toDateString tzo (Date_parse (date c))) (drop i xs))"
proof (induction tzo now xs i s rule: streak_loop.induct)
  case (1 tzo today xs i s)
  show ?case
  proof (cases "i < length xs")
    case False
    with 1(2) show ?thesis
      by (subst streak_loop.simps) simp
  next
    case True
    then have d: "drop i xs = xs ! i # drop (Suc i) xs"
      by (simp add: Cons_nth_drop_Suc)
    show ?thesis
    proof (cases "toDateString tzo (Date_parse (date (xs ! i))) = toDateString tzo (setDate_back today i)")
      case False
      with True show ?thesis
        by (subst streak_loop.simps) (simp add: d toDateString_setDate_back)
    next
      case m: True
      from True have "i + 1 \<le> length xs" by simp
      from "1.IH" [OF True m this] True m show ?thesis
        by (subst streak_loop.simps) (simp add: d toDateString_setDate_back algebra_simps)
    qed
  qed
qed

lemma calculateStreak_prefix:
  "calculateStreak tzo now xs =
     unbroken_prefix (toDateString tzo now) (map (\<lambda>c. toDateString tzo (Date_parse (date c))) xs)"
  by (simp add: calculateStreak_def streak_loop_prefix)

lemma unbroken_prefix_le: "unbroken_prefix t ds \<le> length ds"
  by (induction ds arbitrary: t) auto

lemma calculateStreak_le: "calculateStreak tzo now xs \<le> length xs"
  using unbroken_prefix_le [of "toDateString tzo now" "map (\<lambda>c. toDateString tzo (Date_parse (date c))) xs"]
  by (simp add: calculateStreak_prefix)

lemma toDateString_east:
  assumes "- 1440 < tzo" "tzo \<le> 0"
  shows "toDateString tzo (Date_parse d) = d"
proof -
  have "(d * MS_PER_DAY + (- tzo * 60000)) div MS_PER_DAY = d"
    using assms by (simp add: MS_PER_DAY_def div_pos_pos_trivial del: mult_minus_left)
  then show ?thesis
    by (simp add: toDateString_def Date_parse_def algebra_simps)
qed

lemma toDateString_west:
  assumes "0 < tzo" "tzo \<le> 1440"
  shows "toDateString tzo (Date_parse d) = d - 1"
proof -
  have "((d - 1) * MS_PER_DAY + (MS_PER_DAY - tzo * 60000)) div MS_PER_DAY = d - 1"
    using assms by (simp add: MS_PER_DAY_def div_pos_pos_trivial)
  then show ?thesis
    by (simp add: toDateString_def Date_parse_def algebra_simps)
qed

lemma calculateStreak_east:
  assumes "- 1440 < tzo" "tzo \<le> 0"
  shows "calculateStreak tzo now xs = unbroken_prefix (toDateString tzo now) (map date xs)"
  by (simp add: calculateStreak_prefix toDateString_east [OF assms] cong: map_cong)

text \<open>
  Claim C2. In a browser at or east of UTC the streak is the unbroken prefix counted
  from the local day (\<open>calculateStreak_east\<close>). West of UTC the parsed date of a record
  prints as the day before it: at 10:00 local time on 2024-01-15 in a zone five hours
  behind UTC, the single check-in dated 2024-01-15 gives the streak 0, where a browser
  on UTC gives 1. On UTC the dates today, today - 1, today - 3 give 2, and no check-in
  gives 0.
\<close>

theorem calculateStreak_west_of_utc:
  "toISODate 1705330800000 = 19737
   \<and> toDateString 300 1705330800000 = 19737
   \<and> date (checkin_on 19737) = 19737
   \<and> calculateStreak 300 1705330800000 [checkin_on 19737] = 0
   \<and> calculateStreak 0 1705330800000 [checkin_on 19737] = 1
   \<and> calculateStreak 0 1705330800000 [checkin_on 19737, checkin_on 19736, checkin_on 19734] = 2
   \<and> calculateStreak 300 1705330800000 [] = 0"
  by (simp add: calculateStreak_prefix toISODate_def toDateString_def Date_parse_def
      MS_PER_DAY_def checkin_on_def)

lemma length_fetchCheckIns: "length (fetchCheckIns rows) \<le> 7"
  by (simp add: fetchCheckIns_def)

lemma ten_days_sorted: "rev (sort_key date ten_days) = ten_days"
  by (simp add: ten_days_def checkin_on_def)

lemma fetched_streak_at_most_7: "calculateStreak tzo now (fetchCheckIns rows) \<le> 7"
  using calculateStreak_le [of tzo now "fetchCheckIns rows"] length_fetchCheckIns [of rows]
  by (rule order_trans)

text \<open>
  Claim C10. \<^verbatim>\<open>fetchCheckIns\<close> stores at most seven rows, and the streak of the stored
  list would be at most 7. The streak that the dashboard stores and shows is not
  computed from that list: the mount effect runs the \<^verbatim>\<open>fetchStats\<close> of the first render,
  whose \<^verbatim>\<open>checkIns\<close> is the empty initial state, so the stored streak is 0 for every
  history. For ten consecutive days up to today the seven latest rows are stored, their
  streak is 7, and the dashboard shows 0.
\<close>

theorem dashboard_streak_ignores_fetched_list:
  "streak (dashboard_stats (Dashboard_mount tzo now rows)) = 0
   \<and> checkIns (Dashboard_mount tzo now rows) = fetchCheckIns rows
   \<and> calculateStreak tzo now (checkIns (Dashboard_mount tzo now rows)) \<le> 7
   \<and> calculateStreak 0 1705330800000 ten_days = 10
   \<and> checkIns (Dashboard_mount 0 1705330800000 ten_days) = take 7 ten_days
   \<and> calculateStreak 0 1705330800000 (checkIns (Dashboard_mount 0 1705330800000 ten_days)) = 7
   \<and> streak (dashboard_stats (Dashboard_mount 0 1705330800000 ten_days)) = 0"
proof (intro conjI)
  show z: "streak (dashboard_stats (Dashboard_mount tzo now rows)) = 0" for tzo now rows
    by (simp add: Dashboard_mount_def fetchStats_def dashboard_initial_def calculateStreak_def)
  show c: "checkIns (Dashboard_mount tzo now rows) = fetchCheckIns rows" for tzo now rows
    by (simp add: Dashboard_mount_def)
  show "calculateStreak tzo now (checkIns (Dashboard_mount tzo now rows)) \<le> 7"
    unfolding c by (rule fetched_streak_at_most_7)
  show "calculateStreak 0 1705330800000 ten_days = 10"
    by (simp add: calculateStreak_prefix toDateString_def Date_parse_def MS_PER_DAY_def
        ten_days_def checkin_on_def)
  show t: "checkIns (Dashboard_mount 0 1705330800000 ten_days) = take 7 ten_days"
    by (simp add: c fetchCheckIns_def ten_days_sorted)
  show "calculateStreak 0 1705330800000 (checkIns (Dashboard_mount 0 1705330800000 ten_days)) = 7"
    unfolding t
    by (simp add: calculateStreak_prefix toDateString_def Date_parse_def MS_PER_DAY_def
        ten_days_def checkin_on_def)
  show "streak (dashboard_stats (Dashboard_mount 0 1705330800000 ten_days)) = 0"
    by (rule z)
qed

section \<open>Properties of the statistics\<close>

lemma foldl_sum:
  fixes f :: "'a \<Rightarrow> int"
  shows "foldl (\<lambda>sum item. sum + f item) a xs = a + sum_list (map f xs)"
  by (induction xs arbitrary: a) (simp_all add: add.assoc)

lemma foldl_plus: "foldl (\<lambda>a b. a + b) (a::int) xs = a + sum_list xs"
  by (induction xs arbitrary: a) (simp_all add: add.assoc)

lemma slice_last_nonempty: "xs \<noteq> [] \<Longrightarrow> slice_last 5 xs \<noteq> []"
  by (cases xs) (simp_all add: slice_last_def)

lemma average_mood_spec: "average_mood (Some items) = spec_average mood_score items"
  by (simp add: average_mood_def spec_average_def foldl_sum)

lemma average_mood_card_spec:
  "cins \<noteq> [] \<Longrightarrow> average_mood_card cins = Some (spec_average mood_score cins)"
  by (simp add: average_mood_card_def spec_average_def foldl_sum)

lemma avgEnergy_last_five:
  assumes "cins \<noteq> []"
  shows "getInsights_avgEnergy cins = Some (spec_average energy_level (slice_last 5 cins))"
  using assms slice_last_nonempty [OF assms]
  by (simp add: getInsights_avgEnergy_def spec_average_def Let_def foldl_plus)

text \<open>
  Claim C6, as the code has it. The average mood of \<^verbatim>\<open>fetchStats\<close> is the sum of the mood
  scores, a missing one counted as 0, divided by the number of records, and 0 when
  there are none or the query fails; for the moods 8 and 4 it is 6, also after the
  rounding to one decimal with which it is stored. The Average Mood
  card shows the same quotient for a list that is not empty and is not rendered for an
  empty one. The only average of the energy level is that of \<^verbatim>\<open>getInsights\<close>, taken over
  the last five records of a list that is not empty; the sleep quality is never averaged.
\<close>

theorem average_mood_rule:
  "average_mood (Some items) = spec_average mood_score items
   \<and> average_mood None = 0
   \<and> average_mood (Some []) = 0
   \<and> average_mood (Some [mood_only 8, mood_only 4]) = 6
   \<and> avgMood (fetchStats tzo now count (Some [mood_only 8, mood_only 4]) cks) = 6
   \<and> (cins \<noteq> [] \<longrightarrow> average_mood_card cins = Some (spec_average mood_score cins))
   \<and> average_mood_card [] = None
   \<and> (cins \<noteq> [] \<longrightarrow>
        getInsights_avgEnergy cins = Some (spec_average energy_level (slice_last 5 cins)))
   \<and> getInsights_avgEnergy [] = None"
proof (intro conjI impI)
  show "average_mood (Some items) = spec_average mood_score items"
    by (rule average_mood_spec)
  show "average_mood None = 0" "average_mood (Some []) = 0"
    by (simp_all add: average_mood_def)
  show m: "average_mood (Some [mood_only 8, mood_only 4]) = 6"
    by (simp add: average_mood_def mood_only_def or_zero_def)
  have "\<lfloor>(6 :: rat) * 10 + 1 / 2\<rfloor> = 60"
    by (rule floor_unique) simp_all
  then show "avgMood (fetchStats tzo now count (Some [mood_only 8, mood_only 4]) cks) = 6"
    by (simp add: fetchStats_def Math_round_def m)
  show "average_mood_card cins = Some (spec_average mood_score cins)" if "cins \<noteq> []"
    using that by (rule average_mood_card_spec)
  show "average_mood_card [] = None"
    by (simp add: average_mood_card_def)
  show "getInsights_avgEnergy cins = Some (spec_average energy_level (slice_last 5 cins))"
    if "cins \<noteq> []"
    using that by (rule avgEnergy_last_five)
  show "getInsights_avgEnergy [] = None"
    by (simp add: getInsights_avgEnergy_def)
qed

text \<open>Six records with mood 6 and energy levels 5, 1, 1, 1, 1, 1.\<close>

theorem average_mood_rule_witness:
  "six_days \<noteq> []
   \<and> average_mood_card six_days = Some 6
   \<and> getInsights_avgEnergy six_days = Some 1"
proof -
  have ne: "six_days \<noteq> []"
    by (simp add: six_days_def)
  from average_mood_rule [where cins = six_days] ne
  have "average_mood_card six_days = Some (spec_average mood_score six_days)"
    and "getInsights_avgEnergy six_days = Some (spec_average energy_level (slice_last 5 six_days))"
    by blast+
  then show ?thesis
    by (simp add: six_days_def energy_on_def spec_average_def slice_last_def or_zero_def)
qed

text \<open>
  Claim C6 as stated fails for the energy level: over the six records the sum divided
  by the count is 5/3 and the code's average is 1; over no records the rule gives 0 and
  the code computes no value, as for the Average Mood card.
\<close>

theorem energy_average_counterexample:
  "spec_average energy_level six_days = 5 / 3
   \<and> getInsights_avgEnergy six_days = Some 1
   \<and> spec_average energy_level [] = 0
   \<and> getInsights_avgEnergy [] = None
   \<and> average_mood_card [] = None"
  by (simp add: six_days_def energy_on_def spec_average_def getInsights_avgEnergy_def
      average_mood_card_def slice_last_def or_zero_def Let_def)

lemma consistency_card_value:
  "cins \<noteq> [] \<Longrightarrow>
     consistency_card tr cins
       = Some \<lfloor>of_nat (length cins) / (of_nat (parseInt tr) :: rat) * 100 + 1 / 2\<rfloor>"
  by (simp add: consistency_card_def Math_round_def)

text \<open>
  Claim C8. With the range of 7 days, \<^verbatim>\<open>fetchData\<close> keeps the rows dated from the UTC day
  seven days back up to today, which are eight days: eight check-ins on eight different
  days are all fetched, and the card shows 114 percent with no duplicate day.
\<close>

theorem consistency_exceeds_without_duplicates:
  "distinct (map date eight_days)
   \<and> fetchData 1705330800000 Range7 eight_days = eight_days
   \<and> length (fetchData 1705330800000 Range7 eight_days) = 8
   \<and> parseInt Range7 = 7
   \<and> consistency_card Range7 (fetchData 1705330800000 Range7 eight_days) = Some 114"
proof -
  have f: "fetchData 1705330800000 Range7 eight_days = eight_days"
    by (simp add: fetchData_def setDate_back_def toISODate_def MS_PER_DAY_def eight_days_def
        checkin_on_def)
  have "\<lfloor>(1607 :: rat) / 14\<rfloor> = 114"
    by (rule floor_unique) simp_all
  then have "consistency_card Range7 eight_days = Some 114"
    by (simp add: consistency_card_def Math_round_def eight_days_def)
  with f show ?thesis
    by (simp add: eight_days_def checkin_on_def)
qed

end
